theory Spec2Isabelle
  imports Complex_Main "HOL-Library.Word" "HOL-Library.Sublist"
begin

section \<open>JavaScript strings and arrays\<close>

text \<open>
  A JavaScript string is a sequence of UTF-16 code units; \<open>length\<close> counts code units.
  Literals of the source are written with \<open>str\<close>.
\<close>

type_synonym js_char = "16 word"
type_synonym js_string = "js_char list"

definition str :: "string \<Rightarrow> js_string" where
  "str s = map of_char s"

text \<open>
  The class \<open>\s\<close> of a regular expression and the characters removed by \<open>trim\<close> are the
  same set: WhiteSpace and LineTerminator of ECMAScript (TAB, LF, VT, FF, CR, SPACE, NBSP,
  U+1680, U+2000..U+200A, U+2028, U+2029, U+202F, U+205F, U+3000, U+FEFF).
\<close>

definition is_ws :: "js_char \<Rightarrow> bool" where
  "is_ws c =
     (unat c \<in> {9, 10, 11, 12, 13, 32, 160, 5760, 8232, 8233, 8239, 8287, 12288, 65279}
      \<or> (8192 \<le> unat c \<and> unat c \<le> 8202))"

text \<open>
  \<open>content.split(/\s+/)\<close>: the pieces between the maximal runs of whitespace. A leading or
  trailing run leaves an empty piece at that end, and the empty string gives one empty piece.
\<close>

function split_ws :: "js_string \<Rightarrow> js_string list" where
  "split_ws [] = [[]]"
| "split_ws (c # cs) =
     (if is_ws c then [] # split_ws (dropWhile is_ws cs)
      else (case split_ws cs of [] \<Rightarrow> [[c]] | w # ws \<Rightarrow> (c # w) # ws))"
  by pat_completeness auto
termination
  by (relation "measure length") (auto simp: length_dropWhile_le le_imp_less_Suc)

text \<open>\<open>Array.prototype.join(separator)\<close> on an array of strings.\<close>

fun js_join :: "js_string \<Rightarrow> js_string list \<Rightarrow> js_string" where
  "js_join separator [] = []"
| "js_join separator [w] = w"
| "js_join separator (w # v # ws) = w @ separator @ js_join separator (v # ws)"

text \<open>\<open>String.prototype.trim\<close>\<close>

definition trim :: "js_string \<Rightarrow> js_string" where
  "trim s = rev (dropWhile is_ws (rev (dropWhile is_ws s)))"

text \<open>
  \<open>Array.prototype.slice(start, end)\<close> on integer arguments: a negative index counts from
  the end, both indices are clamped to the array, and an empty range gives the empty array.
\<close>

definition js_slice :: "'a list \<Rightarrow> int \<Rightarrow> int \<Rightarrow> 'a list" where
  "js_slice xs start end =
     (let len = int (length xs);
          k = (if start < 0 then max (len + start) 0 else min start len);
          final = (if end < 0 then max (len + end) 0 else min end len)
      in take (nat (final - k)) (drop (nat k) xs))"

text \<open>The decimal digits of a non-negative integer, as a template literal prints it.\<close>

fun decimal :: "nat \<Rightarrow> js_string" where
  "decimal n =
     (if n < 10 then [48 + of_nat n] else decimal (n div 10) @ [48 + of_nat (n mod 10)])"

declare decimal.simps [simp del]

text \<open>
  \<open>Map.prototype.set\<close>, and assignment to a property of a plain object: an existing key keeps
  its place and takes the new value, a new key is appended. \<open>Map.prototype.get\<close> is
  \<open>map_of\<close>; iteration follows the list.
\<close>

fun Map_set :: "'k \<Rightarrow> 'v \<Rightarrow> ('k \<times> 'v) list \<Rightarrow> ('k \<times> 'v) list" where
  "Map_set k v [] = [(k, v)]"
| "Map_set k v (p # ps) = (if fst p = k then (k, v) # ps else p # Map_set k v ps)"

definition Map_get :: "('k \<times> 'v) list \<Rightarrow> 'k \<Rightarrow> 'v option" where
  "Map_get m k = map_of m k"

text \<open>
  A number, as far as a similarity can be one: a real number, or NaN, which the division 0/0
  gives. A difference with NaN is NaN, and a comparison with NaN is false.
\<close>

datatype js_number = Num real | NaN

definition js_minus :: "js_number \<Rightarrow> js_number \<Rightarrow> js_number" where
  "js_minus a b =
     (case a of NaN \<Rightarrow> NaN | Num x \<Rightarrow> (case b of NaN \<Rightarrow> NaN | Num y \<Rightarrow> Num (x - y)))"

definition js_ge :: "js_number \<Rightarrow> js_number \<Rightarrow> bool" where
  "js_ge a b =
     (case a of NaN \<Rightarrow> False | Num x \<Rightarrow> (case b of NaN \<Rightarrow> False | Num y \<Rightarrow> x \<ge> y))"

text \<open>
  \<open>Array.prototype.sort(compare)\<close>: an element sorts after another when the comparator gives
  a positive number for the two; a result of NaN counts as 0. The sort is stable, so with a
  consistent comparator the result is the one an insertion sort gives, where an element goes
  in front of the first later element it does not sort after. With a comparator that is not
  consistent, as one that gives NaN for some pairs only, the standard leaves the order to the
  implementation; the model keeps the insertion sort.
\<close>

definition sorts_after :: "js_number \<Rightarrow> bool" where
  "sorts_after v = (case v of NaN \<Rightarrow> False | Num x \<Rightarrow> x > 0)"

fun js_sort_insert :: "('a \<Rightarrow> 'a \<Rightarrow> js_number) \<Rightarrow> 'a \<Rightarrow> 'a list \<Rightarrow> 'a list" where
  "js_sort_insert compare x [] = [x]"
| "js_sort_insert compare x (y # ys) =
     (if sorts_after (compare x y) then y # js_sort_insert compare x ys else x # y # ys)"

definition js_sort :: "('a \<Rightarrow> 'a \<Rightarrow> js_number) \<Rightarrow> 'a list \<Rightarrow> 'a list" where
  "js_sort compare xs = foldr (js_sort_insert compare) xs []"

section \<open>Errors\<close>

text \<open>
  The exceptions the source throws, by the message of the \<open>Error\<close>. \<open>InheritedSetter\<close> is
  not an exception: it marks the first assignment that runs a setter of the runtime. The model
  follows the code up to that assignment and not beyond it.
\<close>

datatype error =
    InvalidEmbeddings
  | TargetNotFound js_string
  | DocumentNotFound js_string
  | NotInitialized
  | IndexNotInitialized
  | TypeError
  | InheritedSetter js_string

section \<open>SimilarityService\<close>

text \<open>
  The cosine of two vectors comes from the package \<open>compute-cosine-similarity\<close>, which is not
  part of the repository: it is the parameter \<open>cs\<close>, a function from two well-formed vectors
  of one dimension to a number, which is NaN when the norm of one of them is 0. A null,
  undefined or otherwise falsy embedding is \<open>None\<close>.
\<close>

definition calculateCosineSimilarity ::
  "('v \<Rightarrow> 'v \<Rightarrow> js_number) \<Rightarrow> 'v option \<Rightarrow> 'v option \<Rightarrow> error + js_number" where
  "calculateCosineSimilarity cs embedding1 embedding2 =
     (case embedding1 of
        None \<Rightarrow> Inl InvalidEmbeddings
      | Some a \<Rightarrow>
          (case embedding2 of
             None \<Rightarrow> Inl InvalidEmbeddings
           | Some b \<Rightarrow> Inr (cs a b)))"

text \<open>
  The object \<open>wordEmbeddings\<close> is the list of its own properties in enumeration order, each
  word bound to an embedding or to null; the keys of an object are distinct.
  \<open>wordEmbeddings[word]\<close> for a key reads the own property, whatever the object inherits
  under that name. For a word that is not a key the read is taken as undefined, falsy like
  null, which leaves aside the names that every object inherits: the functions below read
  \<open>wordEmbeddings\<close> at its keys, and \<open>findMostSimilar\<close> at its target word, which the
  properties below take among the keys.
\<close>

type_synonym 'v word_embeddings = "(js_string \<times> 'v option) list"

definition embedding_of :: "'v word_embeddings \<Rightarrow> js_string \<Rightarrow> 'v option" where
  "embedding_of wordEmbeddings w =
     (case map_of wordEmbeddings w of None \<Rightarrow> None | Some e \<Rightarrow> e)"

record similar =
  word :: js_string
  similarity :: js_number

text \<open>The loop of \<open>findMostSimilar\<close> over \<open>Object.entries(wordEmbeddings)\<close>.\<close>

fun similarities_loop ::
  "('v \<Rightarrow> 'v \<Rightarrow> js_number) \<Rightarrow> js_string \<Rightarrow> 'v \<Rightarrow> 'v word_embeddings \<Rightarrow> similar list
     \<Rightarrow> error + similar list" where
  "similarities_loop cs targetWord targetEmbedding [] similarities = Inr similarities"
| "similarities_loop cs targetWord targetEmbedding ((w, embedding) # entries) similarities =
     (if w = targetWord then
        similarities_loop cs targetWord targetEmbedding entries similarities
      else
        (case embedding of
           None \<Rightarrow> similarities_loop cs targetWord targetEmbedding entries similarities
         | Some e \<Rightarrow>
             (case calculateCosineSimilarity cs (Some targetEmbedding) (Some e) of
                Inl err \<Rightarrow> Inl err
              | Inr s \<Rightarrow>
                  similarities_loop cs targetWord targetEmbedding entries
                    (similarities @ [\<lparr>word = w, similarity = s\<rparr>]))))"

text \<open>
  \<open>topK\<close> is an integer. The comparator of the sort is \<open>b.similarity - a.similarity\<close>, and the
  result is cut by \<open>slice(0, topK)\<close>, which for a negative \<open>topK\<close> drops that many entries from
  the end.
\<close>

definition findMostSimilar ::
  "('v \<Rightarrow> 'v \<Rightarrow> js_number) \<Rightarrow> js_string \<Rightarrow> 'v word_embeddings \<Rightarrow> int
     \<Rightarrow> error + similar list" where
  "findMostSimilar cs targetWord wordEmbeddings topK =
     (case embedding_of wordEmbeddings targetWord of
        None \<Rightarrow> Inl (TargetNotFound targetWord)
      | Some targetEmbedding \<Rightarrow>
          (case similarities_loop cs targetWord targetEmbedding wordEmbeddings [] of
             Inl err \<Rightarrow> Inl err
           | Inr similarities \<Rightarrow>
               Inr (js_slice
                 (js_sort (\<lambda>a b. js_minus (similarity b) (similarity a)) similarities)
                 0 topK)))"

definition interpretSimilarity :: "real \<Rightarrow> js_string" where
  "interpretSimilarity score =
     (if score > 0.9 then str ''Nearly identical meaning''
      else if score > 0.7 then str ''Very similar meaning''
      else if score > 0.5 then str ''Moderately similar''
      else if score > 0.3 then str ''Somewhat related''
      else if score > 0.1 then str ''Slightly related''
      else str ''Very different meaning'')"











text \<open>
  The inner loop of \<open>clusterByThreshold\<close> over the ranking of the seed: a word joins the
  cluster when it is not visited and its similarity reaches the threshold, which a NaN on
  either side never does.
\<close>

fun absorb_loop ::
  "js_number \<Rightarrow> similar list \<Rightarrow> js_string list \<Rightarrow> js_string set
     \<Rightarrow> js_string list \<times> js_string set" where
  "absorb_loop threshold [] cluster visited = (cluster, visited)"
| "absorb_loop threshold (sw # similarWords) cluster visited =
     (if word sw \<notin> visited \<and> js_ge (similarity sw) threshold then
        absorb_loop threshold similarWords (cluster @ [word sw]) (insert (word sw) visited)
      else absorb_loop threshold similarWords cluster visited)"

text \<open>
  The outer loop over the words still to come; \<open>words\<close> is the whole array, whose length gives
  \<open>topK\<close>.
\<close>

fun cluster_loop ::
  "('v \<Rightarrow> 'v \<Rightarrow> js_number) \<Rightarrow> 'v word_embeddings \<Rightarrow> js_number \<Rightarrow> js_string list
     \<Rightarrow> js_string list \<Rightarrow> js_string set \<Rightarrow> js_string list list
     \<Rightarrow> error + js_string list list" where
  "cluster_loop cs wordEmbeddings threshold words [] visited clusters = Inr clusters"
| "cluster_loop cs wordEmbeddings threshold words (w # rest) visited clusters =
     (if w \<in> visited then
        cluster_loop cs wordEmbeddings threshold words rest visited clusters
      else
        (case findMostSimilar cs w wordEmbeddings (int (length words) - 1) of
           Inl err \<Rightarrow> Inl err
         | Inr similarWords \<Rightarrow>
             (case absorb_loop threshold similarWords [w] (insert w visited) of
                (cluster, visited') \<Rightarrow>
                  cluster_loop cs wordEmbeddings threshold words rest visited'
                    (clusters @ [cluster]))))"

definition clusterByThreshold ::
  "('v \<Rightarrow> 'v \<Rightarrow> js_number) \<Rightarrow> 'v word_embeddings \<Rightarrow> js_number
     \<Rightarrow> error + js_string list list" where
  "clusterByThreshold cs wordEmbeddings threshold =
     (let words = map fst wordEmbeddings
      in cluster_loop cs wordEmbeddings threshold words words {} [])"

section \<open>DocumentService\<close>

text \<open>
  A metadata value is a string, a number or any other value. In the records the fields
  \<open>id\<close>, \<open>title\<close>, \<open>content\<close> and \<open>metadata\<close> of a document carry the prefix \<open>doc_\<close>, the
  fields \<open>id\<close> and \<open>content\<close> of a chunk the prefix \<open>chunk_\<close>.
\<close>

datatype 'a js_value = JString js_string | JNumber int | JOther 'a

record 'a Document =
  doc_id :: js_string
  doc_title :: js_string
  doc_content :: js_string
  doc_metadata :: "(js_string \<times> 'a js_value) list"

record Chunk =
  chunk_id :: js_string
  documentId :: js_string
  documentTitle :: js_string
  chunk_content :: js_string
  startPosition :: nat
  endPosition :: nat
  chunkIndex :: nat
  wordCount :: nat

record 'e ChunkEmbedding =
  chunkId :: js_string
  embedding :: 'e
  chunk :: Chunk

record ('a, 'e) DocumentService =
  documents :: "(js_string \<times> 'a Document) list"
  documentChunks :: "(js_string \<times> Chunk list) list"
  chunkEmbeddings :: "(js_string \<times> 'e ChunkEmbedding) list"
  chunkSize :: int
  chunkOverlap :: int

text \<open>The constructor.\<close>

definition new_DocumentService :: "('a, 'e) DocumentService" where
  "new_DocumentService =
     \<lparr>documents = [], documentChunks = [], chunkEmbeddings = [],
      chunkSize = 500, chunkOverlap = 50\<rparr>"

text \<open>
  The loop of \<open>createChunks\<close>, from the window start \<open>i\<close>. It ends when \<open>i\<close> leaves the array
  or at the \<open>break\<close> on a blank window; a loop that runs forever has the value \<open>None\<close>.
\<close>

partial_function (option) createChunks_loop ::
  "int \<Rightarrow> int \<Rightarrow> js_string \<Rightarrow> js_string \<Rightarrow> js_string list \<Rightarrow> int \<Rightarrow> Chunk list \<Rightarrow> nat
     \<Rightarrow> Chunk list option" where
  "createChunks_loop avgWordsPerChunk overlapWords documentId' title words i chunks
       currentPosition =
     (if i < int (length words) then
        (let chunkWords = js_slice words i (i + avgWordsPerChunk);
             chunkContent = js_join (str '' '') chunkWords
         in if length (trim chunkContent) = 0 then Some chunks
            else
              createChunks_loop avgWordsPerChunk overlapWords documentId' title words
                (i + (avgWordsPerChunk - overlapWords))
                (chunks @
                   [\<lparr>chunk_id = documentId' @ str ''_chunk_'' @ decimal (length chunks),
                     documentId = documentId',
                     documentTitle = title,
                     chunk_content = chunkContent,
                     startPosition = currentPosition,
                     endPosition = currentPosition + length chunkContent,
                     chunkIndex = length chunks,
                     wordCount = length chunkWords\<rparr>])
                (currentPosition + length chunkContent))
      else Some chunks)"

declare createChunks_loop.simps [code]

definition createChunks ::
  "('a, 'e) DocumentService \<Rightarrow> js_string \<Rightarrow> js_string \<Rightarrow> js_string \<Rightarrow> Chunk list option" where
  "createChunks this content documentId' title =
     (let words = split_ws content;
          avgWordsPerChunk = chunkSize this div 5;
          overlapWords = chunkOverlap this div 5
      in createChunks_loop avgWordsPerChunk overlapWords documentId' title words 0 [] 0)"

text \<open>
  \<open>addDocument\<close>; \<open>now\<close> is the string \<open>new Date().toISOString()\<close> gives at the call. The
  result is the returned id with the store after the call, \<open>None\<close> when \<open>createChunks\<close> does
  not return.
\<close>

definition addDocument ::
  "('a, 'e) DocumentService \<Rightarrow> js_string \<Rightarrow> js_string \<Rightarrow> js_string
     \<Rightarrow> (js_string \<times> 'a js_value) list \<Rightarrow> js_string
     \<Rightarrow> (js_string \<times> ('a, 'e) DocumentService) option" where
  "addDocument this id' title content metadata now =
     (let document =
            \<lparr>doc_id = id', doc_title = title, doc_content = content,
             doc_metadata =
               Map_set (str ''wordCount'') (JNumber (int (length (split_ws content))))
                 (Map_set (str ''characterCount'') (JNumber (int (length content)))
                   (Map_set (str ''addedAt'') (JString now) metadata))\<rparr>;
          this1 = this\<lparr>documents := Map_set id' document (documents this)\<rparr>
      in case createChunks this1 content id' title of
           None \<Rightarrow> None
         | Some chunks \<Rightarrow>
             Some (id', this1\<lparr>documentChunks := Map_set id' chunks (documentChunks this1)\<rparr>))"

text \<open>\<open>embeddings[index]\<close>: undefined beyond the end of the array, and falsy like null.\<close>

definition js_index :: "'e option list \<Rightarrow> nat \<Rightarrow> 'e option" where
  "js_index xs i = (if i < length xs then xs ! i else None)"

text \<open>The \<open>forEach\<close> of \<open>storeChunkEmbeddings\<close>, from position \<open>index\<close>.\<close>

fun store_each ::
  "'e option list \<Rightarrow> Chunk list \<Rightarrow> nat \<Rightarrow> (js_string \<times> 'e ChunkEmbedding) list
     \<Rightarrow> (js_string \<times> 'e ChunkEmbedding) list" where
  "store_each embeddings [] index m = m"
| "store_each embeddings (c # chunks) index m =
     (case js_index embeddings index of
        None \<Rightarrow> store_each embeddings chunks (Suc index) m
      | Some e \<Rightarrow>
          store_each embeddings chunks (Suc index)
            (Map_set (chunk_id c) \<lparr>chunkId = chunk_id c, embedding = e, chunk = c\<rparr> m))"

definition storeChunkEmbeddings ::
  "('a, 'e) DocumentService \<Rightarrow> js_string \<Rightarrow> 'e option list
     \<Rightarrow> error + ('a, 'e) DocumentService" where
  "storeChunkEmbeddings this documentId' embeddings =
     (case Map_get (documentChunks this) documentId' of
        None \<Rightarrow> Inl (DocumentNotFound documentId')
      | Some chunks \<Rightarrow>
          Inr (this\<lparr>chunkEmbeddings := store_each embeddings chunks 0 (chunkEmbeddings this)\<rparr>))"

definition getAllChunksWithEmbeddings ::
  "('a, 'e) DocumentService \<Rightarrow> 'e ChunkEmbedding list" where
  "getAllChunksWithEmbeddings this = map snd (chunkEmbeddings this)"

definition getDocument :: "('a, 'e) DocumentService \<Rightarrow> js_string \<Rightarrow> 'a Document option" where
  "getDocument this id' = Map_get (documents this) id'"

definition getDocumentChunks :: "('a, 'e) DocumentService \<Rightarrow> js_string \<Rightarrow> Chunk list" where
  "getDocumentChunks this documentId' =
     (case Map_get (documentChunks this) documentId' of None \<Rightarrow> [] | Some chunks \<Rightarrow> chunks)"

section \<open>RAGController\<close>

text \<open>
  The embedding service and the vector service talk to remote services. Their methods are
  parameters: what a method returns is a function of its arguments and of the calls made to
  the collaborators so far, which the controller records in \<open>calls\<close>. A method that catches
  its own exceptions returns a value; \<open>storeChunks\<close> and \<open>searchSimilar\<close> may throw.
\<close>

record search_match =
  match_id :: js_string
  score :: real
  match_chunk :: Chunk

datatype ('a, 'v) call =
    HealthCheck
  | VectorInitialize
  | GetBatchEmbeddings "js_string list"
  | StoreChunks "(Chunk \<times> 'v option) list" js_string
  | GetEmbedding js_string
  | SearchSimilar 'v nat js_string "(js_string \<times> 'a js_value) list option"

record ('a, 'v) services =
  healthCheck :: "('a, 'v) call list \<Rightarrow> bool"
  vector_initialize :: "('a, 'v) call list \<Rightarrow> bool"
  getBatchEmbeddings :: "('a, 'v) call list \<Rightarrow> js_string list \<Rightarrow> js_string \<Rightarrow> 'v option"
  storeChunks ::
    "('a, 'v) call list \<Rightarrow> (Chunk \<times> 'v option) list \<Rightarrow> js_string \<Rightarrow> error + bool"
  getEmbedding :: "('a, 'v) call list \<Rightarrow> js_string \<Rightarrow> 'v option"
  searchSimilar ::
    "('a, 'v) call list \<Rightarrow> 'v \<Rightarrow> nat \<Rightarrow> js_string \<Rightarrow> (js_string \<times> 'a js_value) list option
       \<Rightarrow> error + search_match list"

record ('a, 'v) RAGController =
  documentService :: "('a, 'v) DocumentService"
  isInitialized :: bool
  calls :: "('a, 'v) call list"

definition new_RAGController :: "('a, 'v) RAGController" where
  "new_RAGController =
     \<lparr>documentService = new_DocumentService, isInitialized = False, calls = []\<rparr>"

text \<open>
  \<open>initialize\<close>: both exceptions of the \<open>try\<close> block go to the \<open>catch\<close>, which clears the flag
  and returns false.
\<close>

definition initialize ::
  "('a, 'v) services \<Rightarrow> ('a, 'v) RAGController \<Rightarrow> bool \<times> ('a, 'v) RAGController" where
  "initialize sv this =
     (let embeddingHealthy = healthCheck sv (calls this);
          this1 = this\<lparr>calls := calls this @ [HealthCheck]\<rparr>
      in if \<not> embeddingHealthy then (False, this1\<lparr>isInitialized := False\<rparr>)
         else
           (let vectorServiceReady = vector_initialize sv (calls this1);
                this2 = this1\<lparr>calls := calls this1 @ [VectorInitialize]\<rparr>
            in if \<not> vectorServiceReady then (False, this2\<lparr>isInitialized := False\<rparr>)
               else (True, this2\<lparr>isInitialized := True\<rparr>)))"

text \<open>
  \<open>RAGController.addDocument\<close>. The guard throws before the \<open>try\<close> block; an exception
  inside the block is caught and the method returns false. The value \<open>storeChunks\<close> returns
  is not looked at. \<open>None\<close> when the chunking of the document does not return.
\<close>

definition RAGController_addDocument ::
  "('a, 'v) services \<Rightarrow> ('a, 'v) RAGController \<Rightarrow> js_string \<Rightarrow> js_string \<Rightarrow> js_string
     \<Rightarrow> (js_string \<times> 'a js_value) list \<Rightarrow> js_string \<Rightarrow> js_string
     \<Rightarrow> ((error + bool) \<times> ('a, 'v) RAGController) option" where
  "RAGController_addDocument sv this id' title content metadata namespace now =
     (if \<not> isInitialized this then Some (Inl NotInitialized, this)
      else
        (case addDocument (documentService this) id' title content metadata now of
           None \<Rightarrow> None
         | Some (_, ds) \<Rightarrow>
             (let this1 = this\<lparr>documentService := ds\<rparr>;
                  chunks = getDocumentChunks ds id';
                  chunkTexts = map chunk_content chunks;
                  embeddings = getBatchEmbeddings sv (calls this1) chunkTexts;
                  this2 = this1\<lparr>calls := calls this1 @ [GetBatchEmbeddings chunkTexts]\<rparr>;
                  chunksWithEmbeddings =
                    map (\<lambda>(index, c). (c, embeddings (chunkTexts ! index))) (enumerate 0 chunks);
                  stored = storeChunks sv (calls this2) chunksWithEmbeddings namespace;
                  this3 =
                    this2\<lparr>calls := calls this2 @ [StoreChunks chunksWithEmbeddings namespace]\<rparr>
              in case stored of
                   Inl err \<Rightarrow> Some (Inr False, this3)
                 | Inr _ \<Rightarrow> Some (Inr True, this3))))"

record search_entry =
  rank :: nat
  entry_similarity :: real
  entry_interpretation :: js_string
  entry_document_id :: js_string
  entry_document_title :: js_string
  entry_chunk_id :: js_string
  entry_chunk_content :: js_string
  entry_chunkIndex :: nat
  entry_wordCount :: nat

record search_results =
  results_query :: js_string
  results_topK :: nat
  totalResults :: nat
  results :: "search_entry list"
  results_context :: js_string

definition buildContext :: "search_match list \<Rightarrow> js_string" where
  "buildContext similarChunks =
     js_join (str [CHR 0x0A, CHR 0x0A])
       (map (\<lambda>(index, result).
               str ''[Context '' @ decimal (index + 1) @ str '' from '' @ str [CHR 0x22]
                 @ documentTitle (match_chunk result) @ str [CHR 0x22] @ str '']''
                 @ str [CHR 0x0A] @ chunk_content (match_chunk result))
          (enumerate 0 similarChunks))"

text \<open>
  \<open>search\<close>. The guard throws before the \<open>try\<close> block; a null query embedding and an
  exception of \<open>searchSimilar\<close> are caught and the method returns null, here \<open>Inr None\<close>.
\<close>

definition search ::
  "('a, 'v) services \<Rightarrow> ('a, 'v) RAGController \<Rightarrow> js_string \<Rightarrow> nat \<Rightarrow> js_string
     \<Rightarrow> (js_string \<times> 'a js_value) list option
     \<Rightarrow> (error + search_results option) \<times> ('a, 'v) RAGController" where
  "search sv this query' topK' namespace filter' =
     (if \<not> isInitialized this then (Inl NotInitialized, this)
      else
        (let queryEmbedding = getEmbedding sv (calls this) query';
             this1 = this\<lparr>calls := calls this @ [GetEmbedding query']\<rparr>
         in case queryEmbedding of
              None \<Rightarrow> (Inr None, this1)
            | Some qe \<Rightarrow>
                (let found = searchSimilar sv (calls this1) qe topK' namespace filter';
                     this2 =
                       this1\<lparr>calls := calls this1 @ [SearchSimilar qe topK' namespace filter']\<rparr>
                 in case found of
                      Inl err \<Rightarrow> (Inr None, this2)
                    | Inr similarChunks \<Rightarrow>
                        (Inr (Some
                           \<lparr>results_query = query', results_topK = topK',
                            totalResults = length similarChunks,
                            results =
                              map (\<lambda>(index, result).
                                     \<lparr>rank = index + 1,
                                      entry_similarity = score result,
                                      entry_interpretation = interpretSimilarity (score result),
                                      entry_document_id = documentId (match_chunk result),
                                      entry_document_title = documentTitle (match_chunk result),
                                      entry_chunk_id = chunk_id (match_chunk result),
                                      entry_chunk_content = chunk_content (match_chunk result),
                                      entry_chunkIndex = chunkIndex (match_chunk result),
                                      entry_wordCount = wordCount (match_chunk result)\<rparr>)
                                (enumerate 0 similarChunks),
                            results_context = buildContext similarChunks\<rparr>), this2))))"

section \<open>Auxiliary definitions\<close>

text \<open>
  The chunks of a document are numbered when the i-th of them has \<open>chunkIndex\<close> i and the
  id made of the document id, \<open>_chunk_\<close> and the decimal digits of i.
\<close>

definition chunks_numbered :: "js_string \<Rightarrow> Chunk list \<Rightarrow> bool" where
  "chunks_numbered d chunks \<longleftrightarrow>
     map chunkIndex chunks = [0..<length chunks]
     \<and> map chunk_id chunks = map (\<lambda>i. d @ str ''_chunk_'' @ decimal i) [0..<length chunks]"

text \<open>
  The entries \<open>findMostSimilar\<close> ranks: the words other than the target that have an
  embedding, each with its similarity to the target, in the order of the mapping.
\<close>

definition candidates ::
  "('v \<Rightarrow> 'v \<Rightarrow> js_number) \<Rightarrow> js_string \<Rightarrow> 'v \<Rightarrow> 'v word_embeddings \<Rightarrow> similar list" where
  "candidates cs targetWord targetEmbedding entries =
     List.map_filter
       (\<lambda>(w, embedding).
          if w = targetWord then None
          else map_option (\<lambda>e. \<lparr>word = w, similarity = cs targetEmbedding e\<rparr>) embedding)
       entries"






section \<open>Example data\<close>

text \<open>
  The store after \<open>addDocument("d1", "T", content)\<close> on a service from the constructor, for a
  content of one word, with the given map of stored embeddings.
\<close>

definition ex_chunk :: "js_string \<Rightarrow> Chunk" where
  "ex_chunk content =
     \<lparr>chunk_id = str ''d1_chunk_0'', documentId = str ''d1'', documentTitle = str ''T'',
      chunk_content = content, startPosition = 0, endPosition = length content,
      chunkIndex = 0, wordCount = 1\<rparr>"

definition ex_document :: "js_string \<Rightarrow> unit Document" where
  "ex_document content =
     \<lparr>doc_id = str ''d1'', doc_title = str ''T'', doc_content = content,
      doc_metadata =
        [(str ''addedAt'', JString (str ''2024-01-01T00:00:00.000Z'')),
         (str ''characterCount'', JNumber (int (length content))),
         (str ''wordCount'', JNumber 1)]\<rparr>"

definition ex_store ::
  "js_string \<Rightarrow> (js_string \<times> nat ChunkEmbedding) list \<Rightarrow> (unit, nat) DocumentService" where
  "ex_store content embs =
     \<lparr>documents = [(str ''d1'', ex_document content)],
      documentChunks = [(str ''d1'', [ex_chunk content])],
      chunkEmbeddings = embs, chunkSize = 500, chunkOverlap = 50\<rparr>"

text \<open>
  The dot product of two vectors of the plane, which is their cosine when both have length 1;
  it stands for the cosine in the examples. \<open>unit_cosine\<close> is the cosine of two vectors of the
  plane of length 0 or 1: the dot product, and NaN when one of them is the zero vector.
\<close>

definition dot :: "real \<times> real \<Rightarrow> real \<times> real \<Rightarrow> js_number" where
  "dot a b = Num (fst a * fst b + snd a * snd b)"

definition unit_cosine :: "real \<times> real \<Rightarrow> real \<times> real \<Rightarrow> js_number" where
  "unit_cosine a b =
     (if a = (0, 0) \<or> b = (0, 0) then NaN else Num (fst a * fst b + snd a * snd b))"



text \<open>Collaborators that are healthy, embed every text and find nothing.\<close>

definition ready_services :: "(unit, nat) services" where
  "ready_services =
     \<lparr>healthCheck = (\<lambda>_. True), vector_initialize = (\<lambda>_. True),
      getBatchEmbeddings = (\<lambda>_ _ _. Some 1), storeChunks = (\<lambda>_ _ _. Inr True),
      getEmbedding = (\<lambda>_ _. Some 1), searchSimilar = (\<lambda>_ _ _ _ _. Inr [])\<rparr>"

section \<open>Properties of SimilarityService\<close>

text \<open>
  C6: \<open>interpretSimilarity\<close> compares the score with 0.9, 0.7, 0.5, 0.3 and 0.1 in this order
  with a strict \<open>>\<close> and returns the label of the first bound the score exceeds. So 0.95 is
  "Nearly identical meaning", the boundary 0.7 falls to the next lower bucket "Moderately
  similar" (as 0.9, 0.5, 0.3 and 0.1 fall to theirs), and -0.5 is "Very different meaning".
\<close>

theorem interpretSimilarity_labels:
  "interpretSimilarity 0.95 = str ''Nearly identical meaning''
   \<and> interpretSimilarity 0.7 = str ''Moderately similar''
   \<and> interpretSimilarity (- 0.5) = str ''Very different meaning''
   \<and> interpretSimilarity 0.9 = str ''Very similar meaning''
   \<and> interpretSimilarity 0.5 = str ''Somewhat related''
   \<and> interpretSimilarity 0.3 = str ''Slightly related''
   \<and> interpretSimilarity 0.1 = str ''Very different meaning''
   \<and> interpretSimilarity s =
       (if 0.9 < s then str ''Nearly identical meaning''
        else if 0.7 < s then str ''Very similar meaning''
        else if 0.5 < s then str ''Moderately similar''
        else if 0.3 < s then str ''Somewhat related''
        else if 0.1 < s then str ''Slightly related''
        else str ''Very different meaning'')"
  by (simp add: interpretSimilarity_def)

section \<open>Properties of createChunks\<close>

lemma split_ws_not_Nil: "split_ws s \<noteq> []"
  by (induction s rule: split_ws.induct) (auto split: list.splits)

lemma trim_Nil: "trim [] = []"
  by (simp add: trim_def)

lemma js_slice_far_left:
  assumes "i + int (length xs) + max n 0 \<le> 0" "i < int (length xs)"
  shows "js_slice xs i (i + n) = []"
proof -
  have a: "int (length xs) + i \<le> 0" "int (length xs) + (i + n) \<le> 0" "i + n \<le> 0"
    using assms by linarith+
  have "(if i + n < 0 then max (int (length xs) + (i + n)) 0 else min (i + n) (int (length xs)))
          \<le> (if i < 0 then max (int (length xs) + i) 0 else min i (int (length xs)))"
    using a assms(2) by (simp add: max_def min_def)
  then show ?thesis
    by (simp add: js_slice_def Let_def)
qed

text \<open>One iteration of the loop on a window that is not blank adds a chunk and moves on.\<close>

lemma createChunks_loop_step:
  assumes "i < int (length words)"
    and "length (trim (js_join (str '' '') (js_slice words i (i + avg)))) \<noteq> 0"
  shows "createChunks_loop avg ov d t words i chunks pos =
         createChunks_loop avg ov d t words (i + (avg - ov))
           (chunks @
              [\<lparr>chunk_id = d @ str ''_chunk_'' @ decimal (length chunks),
                documentId = d, documentTitle = t,
                chunk_content = js_join (str '' '') (js_slice words i (i + avg)),
                startPosition = pos,
                endPosition = pos + length (js_join (str '' '') (js_slice words i (i + avg))),
                chunkIndex = length chunks,
                wordCount = length (js_slice words i (i + avg))\<rparr>])
           (pos + length (js_join (str '' '') (js_slice words i (i + avg))))"
  using assms by (subst createChunks_loop.simps) (simp add: Let_def)

lemma createChunks_loop_stop:
  assumes "\<not> (i < int (length words)
             \<and> length (trim (js_join (str '' '') (js_slice words i (i + avg)))) \<noteq> 0)"
  shows "createChunks_loop avg ov d t words i chunks pos = Some chunks"
  using assms by (subst createChunks_loop.simps) (auto simp: Let_def)

text \<open>With a positive step the loop returns, and every chunk costs one step of the window.\<close>

lemma createChunks_loop_returns:
  assumes "0 < avg - ov"
  shows "\<exists>r. createChunks_loop avg ov d t words i chunks pos = Some r
             \<and> int (length r) * (avg - ov)
                 \<le> int (length chunks) * (avg - ov)
                   + max 0 (int (length words) - i + (avg - ov) - 1)"
proof (induction "nat (int (length words) - i)" arbitrary: i chunks pos rule: less_induct)
  case less
  show ?case
  proof (cases "i < int (length words)
                  \<and> length (trim (js_join (str '' '') (js_slice words i (i + avg)))) \<noteq> 0")
    case False
    then show ?thesis
      using assms by (simp add: createChunks_loop_stop)
  next
    case True
    have m: "nat (int (length words) - (i + (avg - ov))) < nat (int (length words) - i)"
      using True assms by linarith
    let ?content = "js_join (str '' '') (js_slice words i (i + avg))"
    let ?chunks =
      "chunks @
         [\<lparr>chunk_id = d @ str ''_chunk_'' @ decimal (length chunks),
           documentId = d, documentTitle = t, chunk_content = ?content,
           startPosition = pos, endPosition = pos + length ?content,
           chunkIndex = length chunks,
           wordCount = length (js_slice words i (i + avg))\<rparr>]"
    from less [OF m, of ?chunks "pos + length ?content"] obtain r where
      r: "createChunks_loop avg ov d t words (i + (avg - ov)) ?chunks (pos + length ?content)
            = Some r"
      and b: "int (length r) * (avg - ov)
                \<le> int (length ?chunks) * (avg - ov)
                  + max 0 (int (length words) - (i + (avg - ov)) + (avg - ov) - 1)"
      by blast
    have "createChunks_loop avg ov d t words i chunks pos = Some r"
      using r True by (simp add: createChunks_loop_step)
    moreover have "int (length ?chunks) * (avg - ov) = int (length chunks) * (avg - ov) + (avg - ov)"
      by (simp add: algebra_simps)
    then have "int (length r) * (avg - ov)
            \<le> int (length chunks) * (avg - ov) + max 0 (int (length words) - i + (avg - ov) - 1)"
      using b True assms by linarith
    ultimately show ?thesis by blast
  qed
qed

text \<open>With a negative step the window start runs off the left end, where the window is empty.\<close>

lemma createChunks_loop_returns_backwards:
  assumes "avg - ov < 0"
  shows "\<exists>r. createChunks_loop avg ov d t words i chunks pos = Some r"
proof (induction "nat (i + int (length words) + max avg 0)" arbitrary: i chunks pos
    rule: less_induct)
  case less
  show ?case
  proof (cases "i < int (length words)
                  \<and> length (trim (js_join (str '' '') (js_slice words i (i + avg)))) \<noteq> 0")
    case False
    then show ?thesis
      by (simp add: createChunks_loop_stop)
  next
    case True
    then have p: "0 < i + int (length words) + max avg 0"
      using js_slice_far_left [of i words avg] by (fastforce simp: trim_Nil)
    have m: "nat (i + (avg - ov) + int (length words) + max avg 0)
               < nat (i + int (length words) + max avg 0)"
      using p assms by linarith
    let ?content = "js_join (str '' '') (js_slice words i (i + avg))"
    let ?chunks =
      "chunks @
         [\<lparr>chunk_id = d @ str ''_chunk_'' @ decimal (length chunks),
           documentId = d, documentTitle = t, chunk_content = ?content,
           startPosition = pos, endPosition = pos + length ?content,
           chunkIndex = length chunks,
           wordCount = length (js_slice words i (i + avg))\<rparr>]"
    show ?thesis
      using less [OF m, of ?chunks "pos + length ?content"] True
      by (simp add: createChunks_loop_step)
  qed
qed

text \<open>With the step 0 the loop stays on a window that is not blank.\<close>

lemma createChunks_loop_stuck:
  assumes run: "createChunks_loop avg ov d t words i chunks pos = Some r"
  shows "\<not> (avg = ov \<and> i < int (length words)
             \<and> length (trim (js_join (str '' '') (js_slice words i (i + avg)))) \<noteq> 0)"
proof (rule createChunks_loop.raw_induct
    [where P = "\<lambda>avg ov d t words i chunks pos r.
                  \<not> (avg = ov \<and> i < int (length words)
                     \<and> length (trim (js_join (str '' '') (js_slice words i (i + avg)))) \<noteq> 0)",
     OF _ run])
  fix loop :: "int \<Rightarrow> int \<Rightarrow> js_string \<Rightarrow> js_string \<Rightarrow> js_string list \<Rightarrow> int \<Rightarrow> Chunk list
                 \<Rightarrow> nat \<Rightarrow> Chunk list option"
    and avg ov d t words i chunks pos r
  assume IH: "\<And>avg ov d t words i chunks pos r.
                 loop avg ov d t words i chunks pos = Some r
                 \<Longrightarrow> \<not> (avg = ov \<and> i < int (length words)
                        \<and> length (trim (js_join (str '' '') (js_slice words i (i + avg)))) \<noteq> 0)"
    and body: "(if i < int (length words) then
        (let chunkWords = js_slice words i (i + avg);
             chunkContent = js_join (str '' '') chunkWords
         in if length (trim chunkContent) = 0 then Some chunks
            else
              loop avg ov d t words (i + (avg - ov))
                (chunks @
                   [\<lparr>chunk_id = d @ str ''_chunk_'' @ decimal (length chunks),
                     documentId = d, documentTitle = t,
                     chunk_content = chunkContent,
                     startPosition = pos,
                     endPosition = pos + length chunkContent,
                     chunkIndex = length chunks,
                     wordCount = length chunkWords\<rparr>])
                (pos + length chunkContent))
      else Some chunks) = Some r"
  show "\<not> (avg = ov \<and> i < int (length words)
           \<and> length (trim (js_join (str '' '') (js_slice words i (i + avg)))) \<noteq> 0)"
  proof
    assume stuck: "avg = ov \<and> i < int (length words)
      \<and> length (trim (js_join (str '' '') (js_slice words i (i + avg)))) \<noteq> 0"
    then have lt: "i < int (length words)"
      and nb: "length (trim (js_join (str '' '') (js_slice words i (i + avg)))) \<noteq> 0"
      by blast+
    from body lt nb have
      "loop avg ov d t words (i + (avg - ov))
         (chunks @
            [\<lparr>chunk_id = d @ str ''_chunk_'' @ decimal (length chunks),
              documentId = d, documentTitle = t,
              chunk_content = js_join (str '' '') (js_slice words i (i + avg)),
              startPosition = pos,
              endPosition = pos + length (js_join (str '' '') (js_slice words i (i + avg))),
              chunkIndex = length chunks,
              wordCount = length (js_slice words i (i + avg))\<rparr>])
         (pos + length (js_join (str '' '') (js_slice words i (i + avg)))) = Some r"
      by (simp add: Let_def)
    from IH [OF this] stuck show False by auto
  qed
qed

text \<open>The loop keeps the chunks numbered.\<close>

lemma chunks_numbered_snoc:
  "chunks_numbered d chunks \<Longrightarrow> chunkIndex c = length chunks
     \<Longrightarrow> chunk_id c = d @ str ''_chunk_'' @ decimal (length chunks)
     \<Longrightarrow> chunks_numbered d (chunks @ [c])"
  by (simp add: chunks_numbered_def)

lemma createChunks_loop_numbered:
  assumes run: "createChunks_loop avg ov d t words i chunks pos = Some r"
  shows "chunks_numbered d chunks \<longrightarrow> chunks_numbered d r"
proof (rule createChunks_loop.raw_induct
    [where P = "\<lambda>avg ov d t words i chunks pos r.
                  chunks_numbered d chunks \<longrightarrow> chunks_numbered d r", OF _ run])
  fix loop :: "int \<Rightarrow> int \<Rightarrow> js_string \<Rightarrow> js_string \<Rightarrow> js_string list \<Rightarrow> int \<Rightarrow> Chunk list
                 \<Rightarrow> nat \<Rightarrow> Chunk list option"
    and avg ov d t words i chunks pos r
  assume IH: "\<And>avg ov d t words i chunks pos r.
                 loop avg ov d t words i chunks pos = Some r
                 \<Longrightarrow> chunks_numbered d chunks \<longrightarrow> chunks_numbered d r"
    and body: "(if i < int (length words) then
        (let chunkWords = js_slice words i (i + avg);
             chunkContent = js_join (str '' '') chunkWords
         in if length (trim chunkContent) = 0 then Some chunks
            else
              loop avg ov d t words (i + (avg - ov))
                (chunks @
                   [\<lparr>chunk_id = d @ str ''_chunk_'' @ decimal (length chunks),
                     documentId = d, documentTitle = t,
                     chunk_content = chunkContent,
                     startPosition = pos,
                     endPosition = pos + length chunkContent,
                     chunkIndex = length chunks,
                     wordCount = length chunkWords\<rparr>])
                (pos + length chunkContent))
      else Some chunks) = Some r"
  show "chunks_numbered d chunks \<longrightarrow> chunks_numbered d r"
  proof
    assume n: "chunks_numbered d chunks"
    show "chunks_numbered d r"
    proof (cases "i < int (length words)
                    \<and> length (trim (js_join (str '' '') (js_slice words i (i + avg)))) \<noteq> 0")
      case False
      with body n show ?thesis by (auto simp: Let_def split: if_splits)
    next
      case True
      with body have
        "loop avg ov d t words (i + (avg - ov))
           (chunks @
              [\<lparr>chunk_id = d @ str ''_chunk_'' @ decimal (length chunks),
                documentId = d, documentTitle = t,
                chunk_content = js_join (str '' '') (js_slice words i (i + avg)),
                startPosition = pos,
                endPosition = pos + length (js_join (str '' '') (js_slice words i (i + avg))),
                chunkIndex = length chunks,
                wordCount = length (js_slice words i (i + avg))\<rparr>])
           (pos + length (js_join (str '' '') (js_slice words i (i + avg)))) = Some r"
        by (simp add: Let_def)
      from IH [OF this] show ?thesis
        by (simp add: chunks_numbered_snoc n)
    qed
  qed
qed

lemma createChunks_returns:
  assumes "0 < chunkSize this div 5 - chunkOverlap this div 5"
  shows "\<exists>chunks. createChunks this content d t = Some chunks
           \<and> int (length chunks) * (chunkSize this div 5 - chunkOverlap this div 5)
               < int (length (split_ws content))
                 + (chunkSize this div 5 - chunkOverlap this div 5)"
proof -
  from createChunks_loop_returns [OF assms, of d t "split_ws content" 0 "[]" 0]
  obtain r where
    r: "createChunks_loop (chunkSize this div 5) (chunkOverlap this div 5) d t
          (split_ws content) 0 [] 0 = Some r"
    and b: "int (length r) * (chunkSize this div 5 - chunkOverlap this div 5)
              \<le> int (length ([] :: Chunk list)) * (chunkSize this div 5 - chunkOverlap this div 5)
                + max 0 (int (length (split_ws content)) - 0
                         + (chunkSize this div 5 - chunkOverlap this div 5) - 1)"
    by blast
  from b assms have
    "int (length r) * (chunkSize this div 5 - chunkOverlap this div 5)
       < int (length (split_ws content)) + (chunkSize this div 5 - chunkOverlap this div 5)"
    by simp
  with r show ?thesis
    by (simp add: createChunks_def Let_def)
qed

lemma createChunks_numbered:
  assumes "createChunks this content d t = Some chunks"
  shows "chunks_numbered d chunks"
proof -
  have "chunks_numbered d []"
    by (simp add: chunks_numbered_def)
  with assms createChunks_loop_numbered show ?thesis
    unfolding createChunks_def Let_def by blast
qed

text \<open>Different numbers have different digits, so numbered chunks have different ids.\<close>

lemma decimal_not_Nil: "decimal n \<noteq> []"
  by (subst decimal.simps) simp

lemma digit_inj:
  assumes "n < 10" "m < 10" "48 + (of_nat n :: 16 word) = 48 + of_nat m"
  shows "n = m"
proof -
  from assms(3) have "(of_nat n :: 16 word) = of_nat m" by simp
  then have "unat (of_nat n :: 16 word) = unat (of_nat m :: 16 word)" by simp
  moreover have "unat (of_nat n :: 16 word) = n" "unat (of_nat m :: 16 word) = m"
    using assms(1,2) by (simp_all add: unat_of_nat)
  ultimately show ?thesis by simp
qed

lemma decimal_inj: "decimal n = decimal m \<Longrightarrow> n = m"
proof (induction n arbitrary: m rule: decimal.induct)
  case (1 n)
  show ?case
  proof (cases "n < 10")
    case n: True
    show ?thesis
    proof (cases "m < 10")
      case True
      with n "1.prems" show ?thesis
        by (simp add: decimal.simps [of n] decimal.simps [of m] digit_inj)
    next
      case False
      with n "1.prems" decimal_not_Nil [of "m div 10"] show ?thesis
        by (simp add: decimal.simps [of n] decimal.simps [of m])
    qed
  next
    case n: False
    show ?thesis
    proof (cases "m < 10")
      case True
      with n "1.prems" decimal_not_Nil [of "n div 10"] show ?thesis
        by (simp add: decimal.simps [of n] decimal.simps [of m])
    next
      case False
      with n "1.prems" have eq: "decimal (n div 10) = decimal (m div 10)"
        and dg: "48 + (of_nat (n mod 10) :: 16 word) = 48 + of_nat (m mod 10)"
        by (simp_all add: decimal.simps [of n] decimal.simps [of m])
      from "1.IH" [OF n eq] have "n div 10 = m div 10" .
      moreover from dg have "n mod 10 = m mod 10"
        by (intro digit_inj) simp_all
      ultimately show ?thesis
        by (metis div_mult_mod_eq)
    qed
  qed
qed

lemma chunks_numbered_distinct:
  assumes "chunks_numbered d chunks"
  shows "distinct (map chunk_id chunks)"
proof -
  have "inj_on (\<lambda>i. d @ str ''_chunk_'' @ decimal i) (set [0..<length chunks])"
    by (rule inj_onI) (simp add: decimal_inj)
  then have "distinct (map (\<lambda>i. d @ str ''_chunk_'' @ decimal i) [0..<length chunks])"
    by (simp add: distinct_map)
  with assms show ?thesis
    by (simp add: chunks_numbered_def)
qed

text \<open>
  C1, as amended: \<open>createChunks\<close> does not clamp the step \<open>avgWordsPerChunk - overlapWords\<close>.
  It returns exactly when the step is not 0 or the first window is blank. When the step is at
  least 1 the window start advances by the step at every chunk, so that n chunks need
  (n - 1) * step < number of words.
\<close>

theorem createChunks_returns_iff:
  "((\<exists>chunks. createChunks this content d t = Some chunks) \<longleftrightarrow>
      (chunkSize this div 5 - chunkOverlap this div 5 \<noteq> 0
       \<or> length (trim (js_join (str '' '')
                    (js_slice (split_ws content) 0 (chunkSize this div 5)))) = 0))
   \<and> (0 < chunkSize this div 5 - chunkOverlap this div 5 \<longrightarrow>
        (\<exists>chunks. createChunks this content d t = Some chunks
           \<and> int (length chunks) * (chunkSize this div 5 - chunkOverlap this div 5)
               < int (length (split_ws content))
                 + (chunkSize this div 5 - chunkOverlap this div 5)))"
proof (intro conjI impI iffI)
  assume "\<exists>chunks. createChunks this content d t = Some chunks"
  then obtain chunks where
    "createChunks_loop (chunkSize this div 5) (chunkOverlap this div 5) d t
       (split_ws content) 0 [] 0 = Some chunks"
    by (auto simp: createChunks_def Let_def)
  from createChunks_loop_stuck [OF this] split_ws_not_Nil [of content]
  show "chunkSize this div 5 - chunkOverlap this div 5 \<noteq> 0
       \<or> length (trim (js_join (str '' '')
                    (js_slice (split_ws content) 0 (chunkSize this div 5)))) = 0"
    by auto
next
  assume a: "chunkSize this div 5 - chunkOverlap this div 5 \<noteq> 0
       \<or> length (trim (js_join (str '' '')
                    (js_slice (split_ws content) 0 (chunkSize this div 5)))) = 0"
  consider "0 < chunkSize this div 5 - chunkOverlap this div 5"
    | "chunkSize this div 5 - chunkOverlap this div 5 < 0"
    | "length (trim (js_join (str '' '')
                    (js_slice (split_ws content) 0 (chunkSize this div 5)))) = 0"
    using a by linarith
  then show "\<exists>chunks. createChunks this content d t = Some chunks"
  proof cases
    case 1
    from createChunks_returns [OF this] show ?thesis by blast
  next
    case 2
    from createChunks_loop_returns_backwards [OF this] show ?thesis
      by (simp add: createChunks_def Let_def)
  next
    case 3
    then show ?thesis
      by (simp add: createChunks_def Let_def createChunks_loop_stop)
  qed
next
  assume "0 < chunkSize this div 5 - chunkOverlap this div 5"
  from createChunks_returns [OF this]
  show "\<exists>chunks. createChunks this content d t = Some chunks
           \<and> int (length chunks) * (chunkSize this div 5 - chunkOverlap this div 5)
               < int (length (split_ws content))
                 + (chunkSize this div 5 - chunkOverlap this div 5)" .
qed

text \<open>C1, witness: the configuration of the constructor on the content "a b c".\<close>

theorem createChunks_returns_iff_witness:
  "0 < chunkSize (new_DocumentService :: (unit, unit) DocumentService) div 5
         - chunkOverlap (new_DocumentService :: (unit, unit) DocumentService) div 5
   \<and> (\<exists>chunks. createChunks (new_DocumentService :: (unit, unit) DocumentService)
                   (str ''a b c'') (str ''d1'') (str ''T'') = Some chunks
         \<and> int (length chunks) * 90 < 3 + 90)"
  using createChunks_returns_iff
    [of "new_DocumentService :: (unit, unit) DocumentService" "str ''a b c''" "str ''d1''" "str ''T''"]
  by (simp add: new_DocumentService_def str_def is_ws_def)

text \<open>
  C1, counterexample to the claim as stated: with \<open>chunkSize = 50\<close> and \<open>chunkOverlap = 50\<close>
  the step is 0, neither clamped nor advancing, and \<open>createChunks\<close> on the content "a" never
  returns.
\<close>

theorem createChunks_step_zero_never_returns:
  "chunkSize ((new_DocumentService :: (unit, unit) DocumentService)\<lparr>chunkSize := 50, chunkOverlap := 50\<rparr>) div 5
     - chunkOverlap ((new_DocumentService :: (unit, unit) DocumentService)\<lparr>chunkSize := 50, chunkOverlap := 50\<rparr>) div 5 = 0
   \<and> createChunks ((new_DocumentService :: (unit, unit) DocumentService)\<lparr>chunkSize := 50, chunkOverlap := 50\<rparr>)
        (str ''a'') (str ''d1'') (str ''T'') = None"
proof -
  have "createChunks_loop 10 10 (str ''d1'') (str ''T'') (split_ws (str ''a'')) 0 [] 0 \<noteq> Some r"
    for r
  proof
    assume "createChunks_loop 10 10 (str ''d1'') (str ''T'') (split_ws (str ''a'')) 0 [] 0
              = Some r"
    from createChunks_loop_stuck [OF this] show False
      by (simp add: str_def is_ws_def js_slice_def trim_def)
  qed
  then have "createChunks_loop 10 10 (str ''d1'') (str ''T'') (split_ws (str ''a'')) 0 [] 0
               = None"
    by (cases "createChunks_loop 10 10 (str ''d1'') (str ''T'') (split_ws (str ''a'')) 0 [] 0")
      auto
  then show ?thesis
    by (simp add: createChunks_def new_DocumentService_def Let_def)
qed

text \<open>
  C7: in the chunk sequence \<open>createChunks\<close> returns, the i-th chunk has \<open>chunkIndex\<close> i, so the
  indices are 0..n-1 in emission order without gaps, and its id is the document id followed
  by \<open>_chunk_\<close> and the decimal digits of i, different for different chunks. The sequence
  is returned whenever the step is positive, as it is in the configuration of the constructor.
\<close>

theorem createChunks_chunkIndex:
  "(\<forall>chunks. createChunks this content d t = Some chunks \<longrightarrow>
      map chunkIndex chunks = [0..<length chunks]
      \<and> map chunk_id chunks
          = map (\<lambda>i. d @ str ''_chunk_'' @ decimal i) [0..<length chunks]
      \<and> distinct (map chunk_id chunks))
   \<and> (chunkOverlap this div 5 < chunkSize this div 5 \<longrightarrow>
        (\<exists>chunks. createChunks this content d t = Some chunks))"
proof (intro conjI allI impI)
  fix chunks
  assume "createChunks this content d t = Some chunks"
  from createChunks_numbered [OF this] have n: "chunks_numbered d chunks" .
  then show "map chunkIndex chunks = [0..<length chunks]"
    and "map chunk_id chunks = map (\<lambda>i. d @ str ''_chunk_'' @ decimal i) [0..<length chunks]"
    by (simp_all add: chunks_numbered_def)
  from n show "distinct (map chunk_id chunks)"
    by (rule chunks_numbered_distinct)
next
  assume "chunkOverlap this div 5 < chunkSize this div 5"
  then have "0 < chunkSize this div 5 - chunkOverlap this div 5" by simp
  from createChunks_returns [OF this]
  show "\<exists>chunks. createChunks this content d t = Some chunks" by blast
qed

text \<open>C7, witness: three chunks of two words with one word of overlap.\<close>

theorem createChunks_chunkIndex_witness:
  "chunkOverlap ((new_DocumentService :: (unit, unit) DocumentService)\<lparr>chunkSize := 10, chunkOverlap := 5\<rparr>) div 5
     < chunkSize ((new_DocumentService :: (unit, unit) DocumentService)\<lparr>chunkSize := 10, chunkOverlap := 5\<rparr>) div 5
   \<and> (\<exists>c0 c1 c2.
         createChunks ((new_DocumentService :: (unit, unit) DocumentService)\<lparr>chunkSize := 10, chunkOverlap := 5\<rparr>)
            (str ''a b c'') (str ''d1'') (str ''T'') = Some [c0, c1, c2]
         \<and> map chunkIndex [c0, c1, c2] = [0, 1, 2]
         \<and> map chunk_id [c0, c1, c2]
             = [str ''d1_chunk_0'', str ''d1_chunk_1'', str ''d1_chunk_2''])"
proof -
  let ?cfg = "(new_DocumentService :: (unit, unit) DocumentService)\<lparr>chunkSize := 10, chunkOverlap := 5\<rparr>"
  have run: "createChunks ?cfg (str ''a b c'') (str ''d1'') (str ''T'')
    = Some [\<lparr>chunk_id = str ''d1_chunk_0'', documentId = str ''d1'', documentTitle = str ''T'',
              chunk_content = str ''a b'', startPosition = 0, endPosition = 3, chunkIndex = 0,
              wordCount = 2\<rparr>,
            \<lparr>chunk_id = str ''d1_chunk_1'', documentId = str ''d1'', documentTitle = str ''T'',
              chunk_content = str ''b c'', startPosition = 3, endPosition = 6, chunkIndex = 1,
              wordCount = 2\<rparr>,
            \<lparr>chunk_id = str ''d1_chunk_2'', documentId = str ''d1'', documentTitle = str ''T'',
              chunk_content = str ''c'', startPosition = 6, endPosition = 7, chunkIndex = 2,
              wordCount = 1\<rparr>]"
    by (simp add: createChunks_def new_DocumentService_def Let_def str_def is_ws_def
        createChunks_loop.simps js_slice_def trim_def decimal.simps)
  from createChunks_chunkIndex [of ?cfg "str ''a b c''" "str ''d1''" "str ''T''"] run
  show ?thesis
    by (simp add: new_DocumentService_def decimal.simps str_def upt_rec)
qed

section \<open>Properties of the document store\<close>

lemma Map_get_Map_set: "Map_get (Map_set k v m) k' = (if k' = k then Some v else Map_get m k')"
  by (induction m) (auto simp: Map_get_def)

lemma Map_set_keys:
  "map fst (Map_set k v m) = (if k \<in> fst ` set m then map fst m else map fst m @ [k])"
  by (induction m) auto

lemma Map_set_new_key: "k \<notin> fst ` set m \<Longrightarrow> Map_set k v m = m @ [(k, v)]"
  by (induction m) auto

lemma store_each_other:
  "k \<notin> chunk_id ` set chunks \<Longrightarrow> Map_get (store_each embeddings chunks n m) k = Map_get m k"
  by (induction chunks arbitrary: n m) (auto simp: Map_get_Map_set split: option.splits)

lemma store_each_at:
  "distinct (map chunk_id chunks) \<Longrightarrow> i < length chunks \<Longrightarrow>
   Map_get (store_each embeddings chunks n m) (chunk_id (chunks ! i)) =
     (case js_index embeddings (n + i) of
        None \<Rightarrow> Map_get m (chunk_id (chunks ! i))
      | Some e \<Rightarrow> Some \<lparr>chunkId = chunk_id (chunks ! i), embedding = e, chunk = chunks ! i\<rparr>)"
proof (induction chunks arbitrary: i n m)
  case Nil
  then show ?case by simp
next
  case (Cons c chunks)
  show ?case
  proof (cases i)
    case 0
    have "chunk_id c \<notin> chunk_id ` set chunks"
      using Cons.prems(1) by auto
    then show ?thesis
      using 0 by (simp add: store_each_other Map_get_Map_set split: option.splits)
  next
    case (Suc j)
    then have j: "j < length chunks" and d: "distinct (map chunk_id chunks)"
      using Cons.prems by auto
    have "chunk_id c \<notin> chunk_id ` set chunks"
      using Cons.prems(1) by auto
    with j have ne: "chunk_id (chunks ! j) \<noteq> chunk_id c"
      by (metis imageI nth_mem)
    show ?thesis
      using Suc Cons.IH [OF d j] ne
      by (simp add: Map_get_Map_set split: option.splits)
  qed
qed

lemma createChunks_documents_update [simp]:
  "createChunks (this\<lparr>documents := ds\<rparr>) content d t = createChunks this content d t"
  by (simp add: createChunks_def)

lemmas store_eval = new_DocumentService_def addDocument_def storeChunkEmbeddings_def
  getDocumentChunks_def getAllChunksWithEmbeddings_def getDocument_def Map_get_def js_index_def
  createChunks_def Let_def str_def is_ws_def createChunks_loop.simps js_slice_def trim_def
  decimal.simps

lemmas ex_defs = ex_store_def ex_chunk_def ex_document_def

text \<open>
  C4, as amended: \<open>addDocument\<close> on an id already in the store replaces the document record and
  the chunk set under that id, without adding a key: \<open>getDocument\<close> returns the new record and
  \<open>getDocumentChunks\<close> exactly the chunks \<open>createChunks\<close> made for the new content; the other
  ids keep theirs. The map of stored embeddings is left as it was, so the chunks stored there
  with an embedding are still returned by \<open>getAllChunksWithEmbeddings\<close>.
\<close>

theorem addDocument_replaces:
  "(\<forall>r. addDocument this id' title content metadata now = Some r \<longrightarrow>
      fst r = id'
      \<and> getDocument (snd r) id' =
          Some \<lparr>doc_id = id', doc_title = title, doc_content = content,
                doc_metadata =
                  Map_set (str ''wordCount'') (JNumber (int (length (split_ws content))))
                    (Map_set (str ''characterCount'') (JNumber (int (length content)))
                      (Map_set (str ''addedAt'') (JString now) metadata))\<rparr>
      \<and> createChunks this content id' title = Some (getDocumentChunks (snd r) id')
      \<and> (id' \<in> fst ` set (documents this) \<longrightarrow>
            map fst (documents (snd r)) = map fst (documents this))
      \<and> (id' \<in> fst ` set (documentChunks this) \<longrightarrow>
            map fst (documentChunks (snd r)) = map fst (documentChunks this))
      \<and> (\<forall>k. k \<noteq> id' \<longrightarrow>
            getDocument (snd r) k = getDocument this k
            \<and> getDocumentChunks (snd r) k = getDocumentChunks this k)
      \<and> getAllChunksWithEmbeddings (snd r) = getAllChunksWithEmbeddings this)
   \<and> (chunkOverlap this div 5 < chunkSize this div 5 \<longrightarrow>
        (\<exists>r. addDocument this id' title content metadata now = Some r))"
proof (intro conjI allI impI)
  assume "chunkOverlap this div 5 < chunkSize this div 5"
  then have "0 < chunkSize this div 5 - chunkOverlap this div 5" by simp
  from createChunks_returns [OF this, of content id' title]
  show "\<exists>r. addDocument this id' title content metadata now = Some r"
    by (auto simp: addDocument_def Let_def)
next
  fix r
  assume "addDocument this id' title content metadata now = Some r"
  then show "fst r = id'"
    and "getDocument (snd r) id' =
          Some \<lparr>doc_id = id', doc_title = title, doc_content = content,
                doc_metadata =
                  Map_set (str ''wordCount'') (JNumber (int (length (split_ws content))))
                    (Map_set (str ''characterCount'') (JNumber (int (length content)))
                      (Map_set (str ''addedAt'') (JString now) metadata))\<rparr>"
    and "createChunks this content id' title = Some (getDocumentChunks (snd r) id')"
    and "getAllChunksWithEmbeddings (snd r) = getAllChunksWithEmbeddings this"
    by (auto simp: addDocument_def Let_def getDocument_def getDocumentChunks_def
        getAllChunksWithEmbeddings_def Map_get_Map_set split: option.splits)
next
  fix r
  assume "addDocument this id' title content metadata now = Some r"
    and "id' \<in> fst ` set (documents this)"
  then show "map fst (documents (snd r)) = map fst (documents this)"
    by (force simp: addDocument_def Let_def Map_set_keys split: option.splits)
next
  fix r
  assume "addDocument this id' title content metadata now = Some r"
    and "id' \<in> fst ` set (documentChunks this)"
  then show "map fst (documentChunks (snd r)) = map fst (documentChunks this)"
    by (force simp: addDocument_def Let_def Map_set_keys split: option.splits)
next
  fix r k
  assume "addDocument this id' title content metadata now = Some r" and "k \<noteq> id'"
  then show "getDocument (snd r) k = getDocument this k"
    and "getDocumentChunks (snd r) k = getDocumentChunks this k"
    by (auto simp: addDocument_def Let_def getDocument_def getDocumentChunks_def
        Map_get_Map_set split: option.splits)
qed

text \<open>C4, witness: the store with document d1 and an embedding for its chunk, d1 added again.\<close>

theorem addDocument_replaces_witness:
  "chunkOverlap (ex_store (str ''a'')
          [(str ''d1_chunk_0'',
            \<lparr>chunkId = str ''d1_chunk_0'', embedding = 7, chunk = ex_chunk (str ''a'')\<rparr>)]) div 5
     < chunkSize (ex_store (str ''a'')
          [(str ''d1_chunk_0'',
            \<lparr>chunkId = str ''d1_chunk_0'', embedding = 7, chunk = ex_chunk (str ''a'')\<rparr>)]) div 5
   \<and> str ''d1'' \<in> fst ` set (documents (ex_store (str ''a'')
          [(str ''d1_chunk_0'',
            \<lparr>chunkId = str ''d1_chunk_0'', embedding = 7, chunk = ex_chunk (str ''a'')\<rparr>)]))
   \<and> (\<exists>r. addDocument
        (ex_store (str ''a'')
          [(str ''d1_chunk_0'',
            \<lparr>chunkId = str ''d1_chunk_0'', embedding = 7, chunk = ex_chunk (str ''a'')\<rparr>)])
        (str ''d1'') (str ''T'') (str ''b'') [] (str ''2024-01-01T00:00:00.000Z'') = Some r
      \<and> fst r = str ''d1''
      \<and> getDocument (snd r) (str ''d1'') = Some (ex_document (str ''b''))
      \<and> getDocumentChunks (snd r) (str ''d1'') = [ex_chunk (str ''b'')]
      \<and> map fst (documents (snd r)) = [str ''d1'']
      \<and> map fst (documentChunks (snd r)) = [str ''d1'']
      \<and> getAllChunksWithEmbeddings (snd r) =
          [\<lparr>chunkId = str ''d1_chunk_0'', embedding = 7, chunk = ex_chunk (str ''a'')\<rparr>])"
proof -
  let ?e = "[(str ''d1_chunk_0'',
            \<lparr>chunkId = str ''d1_chunk_0'', embedding = 7 :: nat, chunk = ex_chunk (str ''a'')\<rparr>)]"
  have run: "addDocument (ex_store (str ''a'') ?e)
        (str ''d1'') (str ''T'') (str ''b'') [] (str ''2024-01-01T00:00:00.000Z'')
      = Some (str ''d1'', ex_store (str ''b'') ?e)"
    by (simp add: ex_defs store_eval)
  from addDocument_replaces [of "ex_store (str ''a'') ?e" "str ''d1''" "str ''T''" "str ''b''" "[]"
      "str ''2024-01-01T00:00:00.000Z''"] run
  show ?thesis
    by (simp add: ex_defs store_eval)
qed

text \<open>
  C4, counterexample to the claim as stated: document d1 is added with the content "a", an
  embedding is stored for its chunk, and d1 is added again with the content "b". Then
  \<open>getDocumentChunks\<close> returns the new chunk only, but \<open>getAllChunksWithEmbeddings\<close> still
  returns the chunk of the first content.
\<close>

theorem addDocument_keeps_old_embeddings:
  "addDocument (new_DocumentService :: (unit, nat) DocumentService) (str ''d1'') (str ''T'')
      (str ''a'') [] (str ''2024-01-01T00:00:00.000Z'')
     = Some (str ''d1'', ex_store (str ''a'') [])
   \<and> storeChunkEmbeddings (ex_store (str ''a'') []) (str ''d1'') [Some 7]
     = Inr (ex_store (str ''a'')
         [(str ''d1_chunk_0'',
           \<lparr>chunkId = str ''d1_chunk_0'', embedding = 7, chunk = ex_chunk (str ''a'')\<rparr>)])
   \<and> addDocument
        (ex_store (str ''a'')
          [(str ''d1_chunk_0'',
            \<lparr>chunkId = str ''d1_chunk_0'', embedding = 7, chunk = ex_chunk (str ''a'')\<rparr>)])
        (str ''d1'') (str ''T'') (str ''b'') [] (str ''2024-01-01T00:00:00.000Z'')
     = Some (str ''d1'',
         ex_store (str ''b'')
          [(str ''d1_chunk_0'',
            \<lparr>chunkId = str ''d1_chunk_0'', embedding = 7, chunk = ex_chunk (str ''a'')\<rparr>)])
   \<and> getDocumentChunks
        (ex_store (str ''b'')
          [(str ''d1_chunk_0'',
            \<lparr>chunkId = str ''d1_chunk_0'', embedding = 7, chunk = ex_chunk (str ''a'')\<rparr>)])
        (str ''d1'')
     = [ex_chunk (str ''b'')]
   \<and> map chunk (getAllChunksWithEmbeddings
        (ex_store (str ''b'')
          [(str ''d1_chunk_0'',
            \<lparr>chunkId = str ''d1_chunk_0'', embedding = 7, chunk = ex_chunk (str ''a'')\<rparr>)]))
     = [ex_chunk (str ''a'')]
   \<and> ex_chunk (str ''a'') \<noteq> ex_chunk (str ''b'')"
  by (simp add: ex_defs store_eval)

text \<open>
  C8: \<open>storeChunkEmbeddings\<close> throws exactly when the document has no chunk set, and the error
  is the not-found error. Otherwise it returns; for chunks of different ids, the chunk at
  position i gets the entry with the embedding at position i, and where that embedding is
  null or beyond the end of the array the entry of the chunk is what it was before. Nothing
  else changes.
\<close>

theorem storeChunkEmbeddings_positional:
  "((\<exists>err. storeChunkEmbeddings this d embeddings = Inl err)
      \<longleftrightarrow> Map_get (documentChunks this) d = None)
   \<and> (Map_get (documentChunks this) d = None
        \<longrightarrow> storeChunkEmbeddings this d embeddings = Inl (DocumentNotFound d))
   \<and> (\<forall>chunks. Map_get (documentChunks this) d = Some chunks \<longrightarrow>
        (\<exists>this'. storeChunkEmbeddings this d embeddings = Inr this'
           \<and> documents this' = documents this
           \<and> documentChunks this' = documentChunks this
           \<and> (\<forall>k. k \<notin> chunk_id ` set chunks \<longrightarrow>
                 Map_get (chunkEmbeddings this') k = Map_get (chunkEmbeddings this) k)
           \<and> (distinct (map chunk_id chunks) \<longrightarrow>
                (\<forall>i < length chunks.
                   Map_get (chunkEmbeddings this') (chunk_id (chunks ! i)) =
                     (case js_index embeddings i of
                        None \<Rightarrow> Map_get (chunkEmbeddings this) (chunk_id (chunks ! i))
                      | Some e \<Rightarrow>
                          Some \<lparr>chunkId = chunk_id (chunks ! i), embedding = e,
                                chunk = chunks ! i\<rparr>)))))"
proof (intro conjI allI impI)
  show "(\<exists>err. storeChunkEmbeddings this d embeddings = Inl err)
      \<longleftrightarrow> Map_get (documentChunks this) d = None"
    by (simp add: storeChunkEmbeddings_def split: option.splits)
next
  assume "Map_get (documentChunks this) d = None"
  then show "storeChunkEmbeddings this d embeddings = Inl (DocumentNotFound d)"
    by (simp add: storeChunkEmbeddings_def)
next
  fix chunks
  assume c: "Map_get (documentChunks this) d = Some chunks"
  let ?this' = "this\<lparr>chunkEmbeddings := store_each embeddings chunks 0 (chunkEmbeddings this)\<rparr>"
  have "storeChunkEmbeddings this d embeddings = Inr ?this'"
    using c by (simp add: storeChunkEmbeddings_def)
  moreover have "\<forall>k. k \<notin> chunk_id ` set chunks \<longrightarrow>
                 Map_get (chunkEmbeddings ?this') k = Map_get (chunkEmbeddings this) k"
    by (simp add: store_each_other)
  moreover have "distinct (map chunk_id chunks) \<longrightarrow>
                (\<forall>i < length chunks.
                   Map_get (chunkEmbeddings ?this') (chunk_id (chunks ! i)) =
                     (case js_index embeddings i of
                        None \<Rightarrow> Map_get (chunkEmbeddings this) (chunk_id (chunks ! i))
                      | Some e \<Rightarrow>
                          Some \<lparr>chunkId = chunk_id (chunks ! i), embedding = e,
                                chunk = chunks ! i\<rparr>))"
    using store_each_at [of chunks _ embeddings 0 "chunkEmbeddings this"] by simp
  ultimately show "\<exists>this'. storeChunkEmbeddings this d embeddings = Inr this'
           \<and> documents this' = documents this
           \<and> documentChunks this' = documentChunks this
           \<and> (\<forall>k. k \<notin> chunk_id ` set chunks \<longrightarrow>
                 Map_get (chunkEmbeddings this') k = Map_get (chunkEmbeddings this) k)
           \<and> (distinct (map chunk_id chunks) \<longrightarrow>
                (\<forall>i < length chunks.
                   Map_get (chunkEmbeddings this') (chunk_id (chunks ! i)) =
                     (case js_index embeddings i of
                        None \<Rightarrow> Map_get (chunkEmbeddings this) (chunk_id (chunks ! i))
                      | Some e \<Rightarrow>
                          Some \<lparr>chunkId = chunk_id (chunks ! i), embedding = e,
                                chunk = chunks ! i\<rparr>)))"
    by (intro exI [of _ ?this']) simp
qed

text \<open>
  C8, witness: a document of three chunks and the embeddings \<open>[null, 5]\<close>; the unknown id d2.
\<close>

theorem storeChunkEmbeddings_positional_witness:
  "\<exists>this c0 c1 c2 this'.
     addDocument ((new_DocumentService :: (unit, nat) DocumentService)
                    \<lparr>chunkSize := 10, chunkOverlap := 5\<rparr>)
       (str ''d1'') (str ''T'') (str ''a b c'') [] (str ''2024-01-01T00:00:00.000Z'')
       = Some (str ''d1'', this)
     \<and> Map_get (documentChunks this) (str ''d1'') = Some [c0, c1, c2]
     \<and> distinct (map chunk_id [c0, c1, c2])
     \<and> Map_get (documentChunks this) (str ''d2'') = None
     \<and> storeChunkEmbeddings this (str ''d2'') [None, Some 5]
         = Inl (DocumentNotFound (str ''d2''))
     \<and> storeChunkEmbeddings this (str ''d1'') [None, Some 5] = Inr this'
     \<and> Map_get (chunkEmbeddings this') (chunk_id c0) = None
     \<and> Map_get (chunkEmbeddings this') (chunk_id c1)
         = Some \<lparr>chunkId = chunk_id c1, embedding = 5, chunk = c1\<rparr>
     \<and> Map_get (chunkEmbeddings this') (chunk_id c2) = None"
proof -
  let ?c0 = "\<lparr>chunk_id = str ''d1_chunk_0'', documentId = str ''d1'', documentTitle = str ''T'',
              chunk_content = str ''a b'', startPosition = 0, endPosition = 3, chunkIndex = 0,
              wordCount = 2\<rparr>"
  let ?c1 = "\<lparr>chunk_id = str ''d1_chunk_1'', documentId = str ''d1'', documentTitle = str ''T'',
              chunk_content = str ''b c'', startPosition = 3, endPosition = 6, chunkIndex = 1,
              wordCount = 2\<rparr>"
  let ?c2 = "\<lparr>chunk_id = str ''d1_chunk_2'', documentId = str ''d1'', documentTitle = str ''T'',
              chunk_content = str ''c'', startPosition = 6, endPosition = 7, chunkIndex = 2,
              wordCount = 1\<rparr>"
  let ?S = "\<lparr>documents =
               [(str ''d1'',
                 \<lparr>doc_id = str ''d1'', doc_title = str ''T'', doc_content = str ''a b c'',
                  doc_metadata =
                    [(str ''addedAt'', JString (str ''2024-01-01T00:00:00.000Z'')),
                     (str ''characterCount'', JNumber 5),
                     (str ''wordCount'', (JNumber 3 :: unit js_value))]\<rparr>)],
             documentChunks = [(str ''d1'', [?c0, ?c1, ?c2])],
             chunkEmbeddings = ([] :: (js_string \<times> nat ChunkEmbedding) list),
             chunkSize = 10, chunkOverlap = 5\<rparr>"
  let ?S' = "?S\<lparr>chunkEmbeddings :=
               [(str ''d1_chunk_1'',
                 \<lparr>chunkId = str ''d1_chunk_1'', embedding = 5, chunk = ?c1\<rparr>)]\<rparr>"
  have run: "addDocument ((new_DocumentService :: (unit, nat) DocumentService)
                    \<lparr>chunkSize := 10, chunkOverlap := 5\<rparr>)
       (str ''d1'') (str ''T'') (str ''a b c'') [] (str ''2024-01-01T00:00:00.000Z'')
       = Some (str ''d1'', ?S)"
    by (simp add: store_eval)
  have chunks: "Map_get (documentChunks ?S) (str ''d1'') = Some [?c0, ?c1, ?c2]"
    and none: "Map_get (documentChunks ?S) (str ''d2'') = None"
    and dist: "distinct (map chunk_id [?c0, ?c1, ?c2])"
    by (simp_all add: Map_get_def str_def)
  from storeChunkEmbeddings_positional [of ?S "str ''d2''" "[None, Some 5]"] none
  have nf: "storeChunkEmbeddings ?S (str ''d2'') [None, Some 5]
              = Inl (DocumentNotFound (str ''d2''))"
    by blast
  from storeChunkEmbeddings_positional [of ?S "str ''d1''" "[None, Some 5]"] chunks dist
  obtain this' where st: "storeChunkEmbeddings ?S (str ''d1'') [None, Some 5] = Inr this'"
    and at: "\<forall>i<length [?c0, ?c1, ?c2].
               Map_get (chunkEmbeddings this') (chunk_id ([?c0, ?c1, ?c2] ! i)) =
                 (case js_index [None, Some (5::nat)] i of
                    None \<Rightarrow> Map_get (chunkEmbeddings ?S) (chunk_id ([?c0, ?c1, ?c2] ! i))
                  | Some e \<Rightarrow>
                      Some \<lparr>chunkId = chunk_id ([?c0, ?c1, ?c2] ! i), embedding = e,
                            chunk = [?c0, ?c1, ?c2] ! i\<rparr>)"
    by blast
  from at [rule_format, of 0] at [rule_format, of 1] at [rule_format, of 2]
  have "Map_get (chunkEmbeddings this') (chunk_id ?c0) = None"
    and "Map_get (chunkEmbeddings this') (chunk_id ?c1)
           = Some \<lparr>chunkId = chunk_id ?c1, embedding = 5, chunk = ?c1\<rparr>"
    and "Map_get (chunkEmbeddings this') (chunk_id ?c2) = None"
    by (simp_all add: js_index_def Map_get_def)
  with run chunks none dist nf st show ?thesis
    by blast
qed

section \<open>Properties of findMostSimilar\<close>

lemma candidates_Nil [simp]: "candidates cs tw te [] = []"
  by (simp add: candidates_def map_filter_simps)

lemma candidates_Cons:
  "candidates cs tw te ((w, e) # entries) =
     (if w = tw then candidates cs tw te entries
      else case e of
             None \<Rightarrow> candidates cs tw te entries
           | Some v \<Rightarrow> \<lparr>word = w, similarity = cs te v\<rparr> # candidates cs tw te entries)"
  by (simp add: candidates_def map_filter_simps split: option.splits)

lemma similarities_loop_candidates:
  "similarities_loop cs tw te entries acc = Inr (acc @ candidates cs tw te entries)"
  by (induction entries arbitrary: acc)
    (auto simp: candidates_Cons calculateCosineSimilarity_def split: option.splits)

lemma candidates_word:
  "r \<in> set (candidates cs tw te entries)
     \<Longrightarrow> word r \<noteq> tw \<and> (\<exists>e. (word r, Some e) \<in> set entries \<and> similarity r = cs te e)"
  by (induction entries) (fastforce simp: candidates_Cons split: if_splits option.splits)+

lemma candidates_words:
  "map word (candidates cs tw te entries)
     = map fst (filter (\<lambda>(w, e). w \<noteq> tw \<and> e \<noteq> None) entries)"
  by (induction entries) (auto simp: candidates_Cons split: option.splits)

lemma findMostSimilar_Some:
  "embedding_of wordEmbeddings targetWord = Some te \<Longrightarrow>
   findMostSimilar cs targetWord wordEmbeddings topK =
     Inr (js_slice (js_sort (\<lambda>a b. js_minus (similarity b) (similarity a))
                      (candidates cs targetWord te wordEmbeddings)) 0 topK)"
  by (simp add: findMostSimilar_def similarities_loop_candidates)

lemma findMostSimilar_None:
  "embedding_of wordEmbeddings targetWord = None \<Longrightarrow>
   findMostSimilar cs targetWord wordEmbeddings topK = Inl (TargetNotFound targetWord)"
  by (simp add: findMostSimilar_def)

text \<open>\<open>slice(0, topK)\<close> is a prefix.\<close>

lemma js_slice_take:
  "js_slice xs 0 k = take (nat (if k < 0 then int (length xs) + k else k)) xs"
  by (simp add: js_slice_def Let_def min_def max_def)

text \<open>
  The sort keeps the elements and is stable; it orders them by descending similarity when no
  similarity is NaN.
\<close>

lemma set_js_sort_insert: "set (js_sort_insert c x ys) = insert x (set ys)"
  by (induction ys) auto

lemma length_js_sort_insert: "length (js_sort_insert c x ys) = Suc (length ys)"
  by (induction ys) auto

lemma set_js_sort: "set (js_sort c xs) = set xs"
  by (induction xs) (auto simp: js_sort_def set_js_sort_insert)

lemma length_js_sort: "length (js_sort c xs) = length xs"
  by (induction xs) (auto simp: js_sort_def length_js_sort_insert)

lemma distinct_map_js_sort_insert:
  "distinct (map f (js_sort_insert c x ys)) \<longleftrightarrow> f x \<notin> f ` set ys \<and> distinct (map f ys)"
  by (induction ys) (auto simp: set_js_sort_insert)

lemma distinct_map_js_sort: "distinct (map f (js_sort c xs)) \<longleftrightarrow> distinct (map f xs)"
proof (induction xs)
  case Nil
  show ?case by (simp add: js_sort_def)
next
  case (Cons x xs)
  have "js_sort c (x # xs) = js_sort_insert c x (js_sort c xs)"
    by (simp add: js_sort_def)
  then show ?case
    by (simp add: distinct_map_js_sort_insert set_js_sort Cons)
qed

lemma sorts_after_minus:
  "sorts_after (js_minus (Num y) (Num x)) \<longleftrightarrow> x < y"
  by (simp add: sorts_after_def js_minus_def)

lemma descending_js_sort_insert:
  "sorted_wrt (\<lambda>a b. js_ge (similarity a) (similarity b)) ys
     \<Longrightarrow> similarity x \<noteq> NaN \<Longrightarrow> \<forall>y \<in> set ys. similarity y \<noteq> NaN
     \<Longrightarrow> sorted_wrt (\<lambda>a b. js_ge (similarity a) (similarity b))
          (js_sort_insert (\<lambda>a b. js_minus (similarity b) (similarity a)) x ys)"
proof (induction ys)
  case Nil
  show ?case by simp
next
  case (Cons y ys)
  from Cons.prems(2) obtain sx where sx: "similarity x = Num sx"
    by (cases "similarity x") simp_all
  from Cons.prems(3) obtain sy where sy: "similarity y = Num sy"
    by (cases "similarity y") simp_all
  have num: "\<exists>sz. similarity z = Num sz" if "z \<in> set ys" for z
    using Cons.prems(3) that by (cases "similarity z") simp_all
  show ?case
  proof (cases "sx < sy")
    case True
    have "\<forall>z \<in> set ys. js_ge (similarity y) (similarity z)"
      using Cons.prems(1) by simp
    with True sx sy Cons show ?thesis
      by (auto simp: sorts_after_minus set_js_sort_insert js_ge_def)
  next
    case False
    have "js_ge (similarity x) (similarity z)" if "z \<in> set ys" for z
    proof -
      from num [OF that] obtain sz where sz: "similarity z = Num sz" by blast
      from Cons.prems(1) that have "js_ge (similarity y) (similarity z)" by simp
      with sx sy sz False show ?thesis by (simp add: js_ge_def)
    qed
    with False sx sy Cons.prems(1) show ?thesis
      by (auto simp: sorts_after_minus js_ge_def)
  qed
qed

lemma descending_js_sort:
  "\<forall>x \<in> set xs. similarity x \<noteq> NaN \<Longrightarrow>
   sorted_wrt (\<lambda>a b. js_ge (similarity a) (similarity b))
     (js_sort (\<lambda>a b. js_minus (similarity b) (similarity a)) xs)"
proof (induction xs)
  case Nil
  show ?case by (simp add: js_sort_def)
next
  case (Cons x xs)
  from Cons have
    "sorted_wrt (\<lambda>a b. js_ge (similarity a) (similarity b))
       (js_sort (\<lambda>a b. js_minus (similarity b) (similarity a)) xs)"
    by simp
  from descending_js_sort_insert [OF this, of x] Cons.prems show ?case
    by (simp add: js_sort_def set_js_sort [unfolded js_sort_def])
qed

lemma sorts_after_differs:
  "sorts_after (js_minus (similarity y) (similarity x)) \<Longrightarrow> similarity y \<noteq> similarity x"
  by (auto simp: sorts_after_def js_minus_def split: js_number.splits)

lemma ties_js_sort_insert:
  "filter (\<lambda>r. similarity r = s)
       (js_sort_insert (\<lambda>a b. js_minus (similarity b) (similarity a)) x ys)
     = (if similarity x = s then x # filter (\<lambda>r. similarity r = s) ys
        else filter (\<lambda>r. similarity r = s) ys)"
  by (induction ys) (auto dest: sorts_after_differs)

lemma ties_js_sort:
  "filter (\<lambda>r. similarity r = s) (js_sort (\<lambda>a b. js_minus (similarity b) (similarity a)) xs)
     = filter (\<lambda>r. similarity r = s) xs"
proof (induction xs)
  case Nil
  show ?case by (simp add: js_sort_def)
next
  case (Cons x xs)
  have "js_sort (\<lambda>a b. js_minus (similarity b) (similarity a)) (x # xs)
          = js_sort_insert (\<lambda>a b. js_minus (similarity b) (similarity a)) x
              (js_sort (\<lambda>a b. js_minus (similarity b) (similarity a)) xs)"
    by (simp add: js_sort_def)
  then show ?case
    by (simp add: ties_js_sort_insert Cons)
qed

lemma filter_take_subseq: "subseq (filter P (take n xs)) (filter P xs)"
proof -
  have "filter P xs = filter P (take n xs) @ filter P (drop n xs)"
    by (metis append_take_drop_id filter_append)
  then show ?thesis
    by (metis prefixI prefix_imp_subseq)
qed

lemma embedding_of_entry:
  "distinct (map fst wordEmbeddings) \<Longrightarrow> (w, e) \<in> set wordEmbeddings
     \<Longrightarrow> embedding_of wordEmbeddings w = e"
  by (simp add: embedding_of_def)

text \<open>
  C5, as amended: for a target word with an embedding, \<open>findMostSimilar\<close> returns a sequence
  that does not contain the target and contains only words that have an embedding (with their
  similarity to the target), each once. When \<open>topK\<close> is not negative the sequence has
  min(topK, number of such words) entries and so at most \<open>topK\<close>; a negative \<open>topK\<close> drops
  that many entries from the end instead. When no similarity to the target is NaN the sequence
  is in descending order of similarity and keeps entries of equal similarity in the order of
  the input mapping.
\<close>

theorem findMostSimilar_ranking:
  assumes "distinct (map fst wordEmbeddings)"
    and "embedding_of wordEmbeddings targetWord = Some te"
  shows "\<exists>result. findMostSimilar cs targetWord wordEmbeddings topK = Inr result
     \<and> targetWord \<notin> word ` set result
     \<and> (\<forall>r \<in> set result. \<exists>e. embedding_of wordEmbeddings (word r) = Some e
                                 \<and> similarity r = cs te e)
     \<and> distinct (map word result)
     \<and> (0 \<le> topK \<longrightarrow>
          length result
            = min (nat topK)
                (length (filter (\<lambda>(w, e). w \<noteq> targetWord \<and> e \<noteq> None) wordEmbeddings))
          \<and> int (length result) \<le> topK)
     \<and> (topK < 0 \<longrightarrow>
          length result
            = length (filter (\<lambda>(w, e). w \<noteq> targetWord \<and> e \<noteq> None) wordEmbeddings)
                - nat (- topK))
     \<and> ((\<forall>w e. (w, Some e) \<in> set wordEmbeddings \<and> w \<noteq> targetWord \<longrightarrow> cs te e \<noteq> NaN) \<longrightarrow>
          sorted_wrt (\<lambda>a b. js_ge (similarity a) (similarity b)) result
          \<and> (\<forall>s. subseq (map word (filter (\<lambda>r. similarity r = s) result))
                          (map fst wordEmbeddings)))"
proof -
  let ?c = "\<lambda>a b. js_minus (similarity b) (similarity a)"
  let ?cands = "candidates cs targetWord te wordEmbeddings"
  let ?n = "length (filter (\<lambda>(w, e). w \<noteq> targetWord \<and> e \<noteq> None) wordEmbeddings)"
  let ?k = "nat (if topK < 0 then int (length (js_sort ?c ?cands)) + topK else topK)"
  let ?result = "take ?k (js_sort ?c ?cands)"
  have run: "findMostSimilar cs targetWord wordEmbeddings topK = Inr ?result"
    using findMostSimilar_Some [OF assms(2), of cs topK] by (simp only: js_slice_take)
  have n: "length (js_sort ?c ?cands) = ?n"
    using arg_cong [OF candidates_words [of cs targetWord te wordEmbeddings], of length]
    by (simp add: length_js_sort)
  have sub: "set ?result \<subseteq> set ?cands"
    using set_take_subset [of ?k "js_sort ?c ?cands"] by (simp only: set_js_sort)
  have a: "targetWord \<notin> word ` set ?result"
    using sub candidates_word [of _ cs targetWord te wordEmbeddings] by blast
  have b: "\<forall>r \<in> set ?result. \<exists>e. embedding_of wordEmbeddings (word r) = Some e
                                 \<and> similarity r = cs te e"
    using sub candidates_word [of _ cs targetWord te wordEmbeddings]
      embedding_of_entry [OF assms(1)] by blast
  have len: "0 \<le> topK \<longrightarrow> length ?result = min (nat topK) ?n \<and> int (length ?result) \<le> topK"
    using n by (auto simp: min_def)
  have neg: "topK < 0 \<longrightarrow> length ?result = ?n - nat (- topK)"
  proof
    assume k: "topK < 0"
    then have "nat (int ?n + topK) = ?n - nat (- topK)"
      by linarith
    moreover have "?n - nat (- topK) \<le> ?n"
      by simp
    ultimately show "length ?result = ?n - nat (- topK)"
      using n k by (simp only: length_take if_True min_absorb2)
  qed
  have srt: "sorted_wrt (\<lambda>a b. js_ge (similarity a) (similarity b)) ?result"
    if "\<forall>w e. (w, Some e) \<in> set wordEmbeddings \<and> w \<noteq> targetWord \<longrightarrow> cs te e \<noteq> NaN"
  proof -
    have "\<forall>r \<in> set ?cands. similarity r \<noteq> NaN"
    proof
      fix r assume "r \<in> set ?cands"
      from candidates_word [OF this] obtain e where
        "word r \<noteq> targetWord" "(word r, Some e) \<in> set wordEmbeddings" "similarity r = cs te e"
        by blast
      with that show "similarity r \<noteq> NaN" by simp
    qed
    then have "sorted_wrt (\<lambda>a b. js_ge (similarity a) (similarity b)) (js_sort ?c ?cands)"
      by (rule descending_js_sort)
    then show ?thesis
      by (rule sorted_wrt_take)
  qed
  have ties: "subseq (map word (filter (\<lambda>r. similarity r = s) ?result))
                     (map fst wordEmbeddings)" for s
  proof -
    have "subseq (filter (\<lambda>r. similarity r = s) ?result) (filter (\<lambda>r. similarity r = s) ?cands)"
      using filter_take_subseq [of "\<lambda>r. similarity r = s" ?k "js_sort ?c ?cands"]
      by (simp only: ties_js_sort)
    then have "subseq (filter (\<lambda>r. similarity r = s) ?result) ?cands"
      by (rule subseq_order.trans) simp
    then have "subseq (map word (filter (\<lambda>r. similarity r = s) ?result)) (map word ?cands)"
      by (rule subseq_map)
    moreover have "subseq (map word ?cands) (map fst wordEmbeddings)"
      by (simp add: candidates_words subseq_map)
    ultimately show ?thesis
      by (rule subseq_order.trans)
  qed
  have dist: "distinct (map word ?result)"
  proof -
    have "distinct (map word ?cands)"
      using assms(1) by (simp add: candidates_words distinct_map_filter)
    then have "distinct (take ?k (map word (js_sort ?c ?cands)))"
      by (simp add: distinct_map_js_sort)
    then show ?thesis
      by (simp only: take_map)
  qed
  show ?thesis
  proof (intro exI [of _ ?result] conjI)
    show "findMostSimilar cs targetWord wordEmbeddings topK = Inr ?result" by (rule run)
    show "targetWord \<notin> word ` set ?result" by (rule a)
    show "\<forall>r \<in> set ?result. \<exists>e. embedding_of wordEmbeddings (word r) = Some e
                                 \<and> similarity r = cs te e" by (rule b)
    show "distinct (map word ?result)" by (rule dist)
    show "0 \<le> topK \<longrightarrow> length ?result = min (nat topK) ?n \<and> int (length ?result) \<le> topK"
      by (rule len)
    show "topK < 0 \<longrightarrow> length ?result = ?n - nat (- topK)" by (rule neg)
    show "(\<forall>w e. (w, Some e) \<in> set wordEmbeddings \<and> w \<noteq> targetWord \<longrightarrow> cs te e \<noteq> NaN) \<longrightarrow>
          sorted_wrt (\<lambda>a b. js_ge (similarity a) (similarity b)) ?result
          \<and> (\<forall>s. subseq (map word (filter (\<lambda>r. similarity r = s) ?result))
                          (map fst wordEmbeddings))"
    proof (intro impI conjI allI)
      assume "\<forall>w e. (w, Some e) \<in> set wordEmbeddings \<and> w \<noteq> targetWord \<longrightarrow> cs te e \<noteq> NaN"
      then show "sorted_wrt (\<lambda>a b. js_ge (similarity a) (similarity b)) ?result"
        by (rule srt)
    next
      fix s
      show "subseq (map word (filter (\<lambda>r. similarity r = s) ?result))
              (map fst wordEmbeddings)"
        by (rule ties)
    qed
  qed
qed

lemmas sim_defs = clusterByThreshold_def findMostSimilar_def embedding_of_def js_sort_def
  calculateCosineSimilarity_def dot_def unit_cosine_def str_def Let_def js_slice_def
  js_minus_def sorts_after_def js_ge_def

text \<open>
  C5, witness: the target a among five words, one of them without embedding and two tied.
\<close>

theorem findMostSimilar_ranking_witness:
  "distinct (map fst [(str ''a'', Some (1, 0)), (str ''b'', Some (0, 1)), (str ''c'', None),
                       (str ''d'', Some (0, 1)), (str ''e'', Some (1, 0 :: real))])
   \<and> embedding_of [(str ''a'', Some (1, 0)), (str ''b'', Some (0, 1)), (str ''c'', None),
                    (str ''d'', Some (0, 1)), (str ''e'', Some (1, 0 :: real))] (str ''a'')
       = Some (1, 0)
   \<and> findMostSimilar dot (str ''a'')
         [(str ''a'', Some (1, 0)), (str ''b'', Some (0, 1)), (str ''c'', None),
          (str ''d'', Some (0, 1)), (str ''e'', Some (1, 0))] 2
       = Inr [\<lparr>word = str ''e'', similarity = Num 1\<rparr>, \<lparr>word = str ''b'', similarity = Num 0\<rparr>]
   \<and> findMostSimilar dot (str ''a'')
         [(str ''a'', Some (1, 0)), (str ''b'', Some (0, 1)), (str ''c'', None),
          (str ''d'', Some (0, 1)), (str ''e'', Some (1, 0))] 5
       = Inr [\<lparr>word = str ''e'', similarity = Num 1\<rparr>, \<lparr>word = str ''b'', similarity = Num 0\<rparr>,
              \<lparr>word = str ''d'', similarity = Num 0\<rparr>]"
proof -
  let ?W = "[(str ''a'', Some (1, 0)), (str ''b'', Some (0, 1)), (str ''c'', None),
             (str ''d'', Some (0, 1)), (str ''e'', Some (1, 0 :: real))]"
  have d: "distinct (map fst ?W)"
    by (simp add: str_def)
  have t: "embedding_of ?W (str ''a'') = Some (1, 0)"
    by (simp add: embedding_of_def str_def)
  from findMostSimilar_ranking [OF d t, of dot 2] findMostSimilar_ranking [OF d t, of dot 5] d t
  show ?thesis
    by (simp add: sim_defs)
qed

text \<open>
  C5, counterexample. With \<open>topK = -1\<close> and three candidates the result has two entries, more
  than \<open>topK\<close>. With the candidates d, b and c in this order, where b is the zero vector and
  so has the similarity NaN, the comparator gives NaN for d against b and for b against c: no
  two neighbours are found out of order, the array stays as it is, and the result is d with 0,
  b with NaN, c with 1. It is not in descending order, since 0 is not at least 1.
\<close>

theorem findMostSimilar_negative_topK_and_NaN:
  "findMostSimilar dot (str ''a'')
       [(str ''a'', Some (1, 0)), (str ''b'', Some (0, 1)), (str ''c'', Some (1, 0)),
        (str ''d'', Some (0, 1))] (- 1)
     = Inr [\<lparr>word = str ''c'', similarity = Num 1\<rparr>, \<lparr>word = str ''b'', similarity = Num 0\<rparr>]
   \<and> findMostSimilar unit_cosine (str ''a'')
       [(str ''a'', Some (1, 0)), (str ''d'', Some (0, 1)), (str ''b'', Some (0, 0)),
        (str ''c'', Some (1, 0))] 5
     = Inr [\<lparr>word = str ''d'', similarity = Num 0\<rparr>, \<lparr>word = str ''b'', similarity = NaN\<rparr>,
            \<lparr>word = str ''c'', similarity = Num 1\<rparr>]
   \<and> \<not> js_ge (Num 0) (Num 1)"
  by (simp add: sim_defs)

section \<open>Properties of clusterByThreshold\<close>

lemma findMostSimilar_words:
  assumes "findMostSimilar cs w wordEmbeddings k = Inr similarWords"
    and "r \<in> set similarWords"
  shows "\<exists>e. (word r, Some e) \<in> set wordEmbeddings"
proof (cases "embedding_of wordEmbeddings w")
  case None
  from findMostSimilar_None [OF this, of cs k] assms(1) show ?thesis by simp
next
  case (Some te)
  from findMostSimilar_Some [OF this, of cs k] assms(1) have
    "similarWords = js_slice (js_sort (\<lambda>a b. js_minus (similarity b) (similarity a))
                            (candidates cs w te wordEmbeddings)) 0 k"
    by simp
  with assms(2) have "r \<in> set (js_sort (\<lambda>a b. js_minus (similarity b) (similarity a))
                            (candidates cs w te wordEmbeddings))"
    unfolding js_slice_take by (metis in_set_takeD)
  then have "r \<in> set (candidates cs w te wordEmbeddings)"
    by (simp only: set_js_sort)
  from candidates_word [OF this] show ?thesis by blast
qed

lemma absorb_loop_result:
  "absorb_loop threshold similarWords cluster visited = (cluster', visited') \<Longrightarrow>
   \<exists>new. cluster' = cluster @ new \<and> visited' = visited \<union> set new \<and> distinct new
         \<and> set new \<inter> visited = {} \<and> set new \<subseteq> word ` set similarWords"
proof (induction similarWords arbitrary: cluster visited)
  case Nil
  then show ?case by simp
next
  case (Cons sw similarWords)
  show ?case
  proof (cases "word sw \<notin> visited \<and> js_ge (similarity sw) threshold")
    case False
    with Cons.prems have
      "absorb_loop threshold similarWords cluster visited = (cluster', visited')"
      by auto
    from Cons.IH [OF this] obtain new where
      new: "cluster' = cluster @ new" "visited' = visited \<union> set new" "distinct new"
        "set new \<inter> visited = {}" "set new \<subseteq> word ` set similarWords"
      by blast
    show ?thesis
    proof (intro exI [of _ new] conjI)
      show "set new \<subseteq> word ` set (sw # similarWords)" using new(5) by auto
    qed (use new in simp_all)
  next
    case True
    with Cons.prems have
      "absorb_loop threshold similarWords (cluster @ [word sw]) (insert (word sw) visited)
         = (cluster', visited')"
      by simp
    from Cons.IH [OF this] obtain new where
      new: "cluster' = (cluster @ [word sw]) @ new"
        "visited' = insert (word sw) visited \<union> set new" "distinct new"
        "set new \<inter> insert (word sw) visited = {}" "set new \<subseteq> word ` set similarWords"
      by blast
    show ?thesis
    proof (intro exI [of _ "word sw # new"] conjI)
      show "cluster' = cluster @ word sw # new" using new(1) by simp
      show "visited' = visited \<union> set (word sw # new)" using new(2) by auto
      show "distinct (word sw # new)" using new(3,4) by auto
      show "set (word sw # new) \<inter> visited = {}" using new(4) True by auto
      show "set (word sw # new) \<subseteq> word ` set (sw # similarWords)" using new(5) by auto
    qed
  qed
qed

lemma cluster_loop_partition:
  "cluster_loop cs we th words rest visited clusters = Inr result \<Longrightarrow>
   distinct (concat clusters) \<Longrightarrow> set (concat clusters) = visited \<Longrightarrow> [] \<notin> set clusters \<Longrightarrow>
   distinct (concat result) \<and> visited \<union> set rest \<subseteq> set (concat result)
   \<and> set (concat result) \<subseteq> visited \<union> set rest \<union> fst ` set we \<and> [] \<notin> set result"
proof (induction rest arbitrary: visited clusters)
  case Nil
  then show ?case by auto
next
  case (Cons w rest)
  show ?case
  proof (cases "w \<in> visited")
    case True
    with Cons.prems(1) have "cluster_loop cs we th words rest visited clusters = Inr result"
      by simp
    from Cons.IH [OF this Cons.prems(2-4)] True show ?thesis by auto
  next
    case False
    with Cons.prems(1) obtain similarWords where
      f: "findMostSimilar cs w we (int (length words) - 1) = Inr similarWords"
      by (auto split: sum.splits)
    obtain cluster visited' where
      a: "absorb_loop th similarWords [w] (insert w visited) = (cluster, visited')"
      by (cases "absorb_loop th similarWords [w] (insert w visited)")
    from Cons.prems(1) False f a have
      run: "cluster_loop cs we th words rest visited' (clusters @ [cluster]) = Inr result"
      by simp
    from absorb_loop_result [OF a] obtain new where
      new: "cluster = [w] @ new" "visited' = insert w visited \<union> set new" "distinct new"
        "set new \<inter> insert w visited = {}" "set new \<subseteq> word ` set similarWords"
      by blast
    have keys: "set new \<subseteq> fst ` set we"
    proof
      fix x assume "x \<in> set new"
      with new(5) obtain r where "r \<in> set similarWords" "x = word r" by auto
      with findMostSimilar_words [OF f] show "x \<in> fst ` set we" by force
    qed
    have d: "distinct (concat (clusters @ [cluster]))"
      using Cons.prems(2,3) new False by auto
    have s: "set (concat (clusters @ [cluster])) = visited'"
      using Cons.prems(3) new by auto
    have n: "[] \<notin> set (clusters @ [cluster])"
      using Cons.prems(4) new(1) by auto
    from Cons.IH [OF run d s n] new(2) keys show ?thesis by auto
  qed
qed

lemma cluster_loop_outcome:
  assumes dist: "distinct (map fst we)"
  shows "\<forall>v\<in>visited. embedding_of we v \<noteq> None \<Longrightarrow>
     (case find (\<lambda>w. embedding_of we w = None) rest of
        None \<Rightarrow> \<exists>result. cluster_loop cs we th words rest visited clusters = Inr result
      | Some w0 \<Rightarrow> cluster_loop cs we th words rest visited clusters = Inl (TargetNotFound w0))"
proof (induction rest arbitrary: visited clusters)
  case Nil
  show ?case by simp
next
  case (Cons w rest)
  show ?case
  proof (cases "embedding_of we w")
    case None
    with Cons.prems have "w \<notin> visited" by auto
    with None show ?thesis
      by (simp add: findMostSimilar_None)
  next
    case (Some te)
    show ?thesis
    proof (cases "w \<in> visited")
      case True
      with Some Cons.IH [OF Cons.prems, of clusters] show ?thesis
        by (simp split: option.splits)
    next
      case False
      let ?sims = "js_slice (js_sort (\<lambda>a b. js_minus (similarity b) (similarity a))
                      (candidates cs w te we)) 0 (int (length words) - 1)"
      have f: "findMostSimilar cs w we (int (length words) - 1) = Inr ?sims"
        using Some by (rule findMostSimilar_Some)
      obtain cluster visited' where
        a: "absorb_loop th ?sims [w] (insert w visited) = (cluster, visited')"
        by (cases "absorb_loop th ?sims [w] (insert w visited)")
      from absorb_loop_result [OF a] obtain new where
        new: "visited' = insert w visited \<union> set new" "set new \<subseteq> word ` set ?sims"
        by blast
      have "\<forall>v\<in>visited'. embedding_of we v \<noteq> None"
      proof
        fix v assume "v \<in> visited'"
        then consider "v = w" | "v \<in> visited" | "v \<in> set new" using new(1) by auto
        then show "embedding_of we v \<noteq> None"
        proof cases
          case 1 with Some show ?thesis by simp
        next
          case 2 with Cons.prems show ?thesis by simp
        next
          case 3
          with new(2) obtain r where "r \<in> set ?sims" "v = word r" by auto
          with findMostSimilar_words [OF f] obtain e where "(v, Some e) \<in> set we" by blast
          with embedding_of_entry [OF dist] show ?thesis by fastforce
        qed
      qed
      from Cons.IH [OF this, of "clusters @ [cluster]"] Some False f a show ?thesis
        by (simp split: option.splits)
    qed
  qed
qed

lemma find_null_embedding:
  assumes "distinct (map fst we)" "set es \<subseteq> set we"
  shows "find (\<lambda>w. embedding_of we w = None) (map fst es)
           = map_option fst (find (\<lambda>p. snd p = None) es)"
  using assms(2)
proof (induction es)
  case Nil
  show ?case by simp
next
  case (Cons p es)
  then have "embedding_of we (fst p) = snd p"
    using embedding_of_entry [OF assms(1), of "fst p" "snd p"] by simp
  with Cons show ?case by simp
qed

lemma clusterByThreshold_outcome:
  assumes "distinct (map fst we)"
  shows "(case find (\<lambda>p. snd p = None) we of
            None \<Rightarrow> \<exists>result. clusterByThreshold cs we th = Inr result
          | Some p \<Rightarrow> clusterByThreshold cs we th = Inl (TargetNotFound (fst p)))"
  using cluster_loop_outcome [OF assms, where visited = "{}" and rest = "map fst we"
      and cs = cs and th = th and words = "map fst we" and clusters = "[]"]
    find_null_embedding [OF assms, of we]
  by (auto simp: clusterByThreshold_def Let_def split: option.splits)

lemma find_None_all: "find P xs = None \<Longrightarrow> x \<in> set xs \<Longrightarrow> \<not> P x"
  by (induction xs) (auto split: if_splits)

lemma distinct_concat_unique:
  "distinct (concat xss) \<Longrightarrow> i < length xss \<Longrightarrow> j < length xss
     \<Longrightarrow> w \<in> set (xss ! i) \<Longrightarrow> w \<in> set (xss ! j) \<Longrightarrow> i = j"
proof (induction xss arbitrary: i j)
  case Nil
  then show ?case by simp
next
  case (Cons xs xss)
  have disj: "set xs \<inter> set (concat xss) = {}" and d: "distinct (concat xss)"
    using Cons.prems(1) by simp_all
  have tail: "w \<notin> set xs" if "k < length xss" "w \<in> set (xss ! k)" for k
  proof -
    from that have "w \<in> set (concat xss)"
      using nth_mem [of k xss] by auto
    with disj show ?thesis by blast
  qed
  show ?case
  proof (cases i)
    case i0: 0
    show ?thesis
    proof (cases j)
      case 0
      with i0 show ?thesis by simp
    next
      case (Suc j')
      with Cons.prems i0 tail [of j'] show ?thesis by simp
    qed
  next
    case (Suc i')
    show ?thesis
    proof (cases j)
      case 0
      with Cons.prems Suc tail [of i'] show ?thesis by simp
    next
      case j: (Suc j')
      from Cons.prems Suc j have "i' < length xss" "j' < length xss"
        "w \<in> set (xss ! i')" "w \<in> set (xss ! j')"
        by simp_all
      from Cons.IH [OF d this] Suc j show ?thesis by simp
    qed
  qed
qed

text \<open>
  C2: the clusters \<open>clusterByThreshold\<close> returns partition the words of the mapping: no word
  occurs twice in the clusters, every word of the mapping occurs in exactly one cluster, and
  no cluster is empty. The clusters are returned exactly when no word is bound to null.
\<close>

theorem clusterByThreshold_partition:
  assumes "distinct (map fst wordEmbeddings)"
  shows "(\<forall>clusters. clusterByThreshold cs wordEmbeddings threshold = Inr clusters \<longrightarrow>
            distinct (concat clusters)
            \<and> set (concat clusters) = fst ` set wordEmbeddings
            \<and> [] \<notin> set clusters
            \<and> (\<forall>w \<in> fst ` set wordEmbeddings.
                  \<exists>!i. i < length clusters \<and> w \<in> set (clusters ! i)))
       \<and> ((\<exists>clusters. clusterByThreshold cs wordEmbeddings threshold = Inr clusters)
            \<longleftrightarrow> (\<forall>p \<in> set wordEmbeddings. snd p \<noteq> None))"
proof (intro conjI allI impI)
  fix clusters
  assume run: "clusterByThreshold cs wordEmbeddings threshold = Inr clusters"
  then have loop: "cluster_loop cs wordEmbeddings threshold (map fst wordEmbeddings)
               (map fst wordEmbeddings) {} [] = Inr clusters"
    by (simp add: clusterByThreshold_def Let_def)
  have "distinct (concat clusters)
          \<and> {} \<union> set (map fst wordEmbeddings) \<subseteq> set (concat clusters)
          \<and> set (concat clusters) \<subseteq> {} \<union> set (map fst wordEmbeddings) \<union> fst ` set wordEmbeddings
          \<and> [] \<notin> set clusters"
    by (rule cluster_loop_partition [OF loop]) simp_all
  then show d: "distinct (concat clusters)"
    and s: "set (concat clusters) = fst ` set wordEmbeddings"
    and n: "[] \<notin> set clusters"
    by auto
  show "\<forall>w \<in> fst ` set wordEmbeddings. \<exists>!i. i < length clusters \<and> w \<in> set (clusters ! i)"
  proof
    fix w assume "w \<in> fst ` set wordEmbeddings"
    with s have "w \<in> set (concat clusters)" by simp
    then obtain c where "c \<in> set clusters" "w \<in> set c" by auto
    then obtain i where i: "i < length clusters" "w \<in> set (clusters ! i)"
      by (metis in_set_conv_nth)
    show "\<exists>!i. i < length clusters \<and> w \<in> set (clusters ! i)"
    proof (rule ex1I [of _ i])
      show "i < length clusters \<and> w \<in> set (clusters ! i)" using i by simp
    next
      fix j assume "j < length clusters \<and> w \<in> set (clusters ! j)"
      then show "j = i"
        using distinct_concat_unique [OF d _ i(1) _ i(2), of j] by simp
    qed
  qed
next
  show "(\<exists>clusters. clusterByThreshold cs wordEmbeddings threshold = Inr clusters)
            \<longleftrightarrow> (\<forall>p \<in> set wordEmbeddings. snd p \<noteq> None)"
  proof (cases "find (\<lambda>p. snd p = None) wordEmbeddings")
    case None
    have "\<forall>p \<in> set wordEmbeddings. snd p \<noteq> None"
      by (intro ballI) (rule find_None_all [OF None])
    moreover from None clusterByThreshold_outcome [OF assms, of cs threshold]
    have "\<exists>clusters. clusterByThreshold cs wordEmbeddings threshold = Inr clusters"
      by simp
    ultimately show ?thesis by blast
  next
    case (Some p)
    then have "p \<in> set wordEmbeddings" "snd p = None"
      by (auto simp: find_Some_iff)
    then have "\<not> (\<forall>p \<in> set wordEmbeddings. snd p \<noteq> None)" by blast
    moreover from Some clusterByThreshold_outcome [OF assms, of cs threshold]
    have "clusterByThreshold cs wordEmbeddings threshold = Inl (TargetNotFound (fst p))"
      by simp
    then have "\<not> (\<exists>clusters. clusterByThreshold cs wordEmbeddings threshold = Inr clusters)"
      by simp
    ultimately show ?thesis by blast
  qed
qed

text \<open>C2, witness: happy, joyful and sad at the threshold 0.9.\<close>

theorem clusterByThreshold_partition_witness:
  "distinct (map fst [(str ''happy'', Some (1 :: real, 0 :: real)), (str ''joyful'', Some (0.99 :: real, 0.14 :: real)),
                       (str ''sad'', Some (- 1 :: real, 0 :: real))])
   \<and> clusterByThreshold dot
         [(str ''happy'', Some (1 :: real, 0 :: real)), (str ''joyful'', Some (0.99 :: real, 0.14 :: real)),
          (str ''sad'', Some (- 1 :: real, 0 :: real))] (Num 0.9)
       = Inr [[str ''happy'', str ''joyful''], [str ''sad'']]
   \<and> distinct (concat [[str ''happy'', str ''joyful''], [str ''sad'']])
   \<and> set (concat [[str ''happy'', str ''joyful''], [str ''sad'']])
       = fst ` set [(str ''happy'', Some (1 :: real, 0 :: real)), (str ''joyful'', Some (0.99 :: real, 0.14 :: real)),
                     (str ''sad'', Some (- 1 :: real, 0 :: real))]"
proof -
  let ?W = "[(str ''happy'', Some (1 :: real, 0 :: real)), (str ''joyful'', Some (0.99 :: real, 0.14 :: real)),
             (str ''sad'', Some (- 1 :: real, 0 :: real))]"
  have d: "distinct (map fst ?W)"
    by (simp add: str_def)
  have run: "clusterByThreshold dot ?W (Num 0.9) = Inr [[str ''happy'', str ''joyful''], [str ''sad'']]"
    by code_simp
  note p = clusterByThreshold_partition [OF d, of dot "Num 0.9", THEN conjunct1, rule_format, OF run]
  from p have p1: "distinct (concat [[str ''happy'', str ''joyful''], [str ''sad'']])"
    by (rule conjunct1)
  from p have p2: "set (concat [[str ''happy'', str ''joyful''], [str ''sad'']]) = fst ` set ?W"
    by (rule conjunct2 [THEN conjunct1])
  show ?thesis
    by (intro conjI) (rule d, rule run, rule p1, rule p2)
qed

text \<open>
  C10: when some word of the mapping is bound to null, \<open>clusterByThreshold\<close> throws: the
  error is the one \<open>findMostSimilar\<close> raises for the first such word of the mapping, which is
  never absorbed and so becomes a seed.
\<close>

theorem clusterByThreshold_null_embedding:
  assumes "distinct (map fst wordEmbeddings)" and "(w, None) \<in> set wordEmbeddings"
  shows "\<exists>w0. find (\<lambda>p. snd p = None) wordEmbeddings = Some (w0, None)
            \<and> clusterByThreshold cs wordEmbeddings threshold = Inl (TargetNotFound w0)"
proof (cases "find (\<lambda>p. snd p = None) wordEmbeddings")
  case None
  from find_None_all [OF None assms(2)] show ?thesis by simp
next
  case (Some p)
  then have "snd p = None"
    by (auto simp: find_Some_iff)
  then have p: "p = (fst p, None)"
    by (cases p) simp
  from Some clusterByThreshold_outcome [OF assms(1), of cs threshold]
  have "clusterByThreshold cs wordEmbeddings threshold = Inl (TargetNotFound (fst p))"
    by simp
  with Some p show ?thesis
    by (intro exI [of _ "fst p"]) simp
qed

text \<open>C10, witness: joyful bound to null.\<close>

theorem clusterByThreshold_null_embedding_witness:
  "distinct (map fst [(str ''happy'', Some (1 :: real, 0 :: real)), (str ''joyful'', None),
                       (str ''sad'', Some (- 1 :: real, 0 :: real))])
   \<and> (str ''joyful'', None) \<in> set [(str ''happy'', Some (1 :: real, 0 :: real)), (str ''joyful'', None),
                       (str ''sad'', Some (- 1 :: real, 0 :: real))]
   \<and> clusterByThreshold dot
         [(str ''happy'', Some (1 :: real, 0 :: real)), (str ''joyful'', None), (str ''sad'', Some (- 1 :: real, 0 :: real))] (Num 0.9)
       = Inl (TargetNotFound (str ''joyful''))"
proof -
  let ?W = "[(str ''happy'', Some (1 :: real, 0 :: real)), (str ''joyful'', None),
             (str ''sad'', Some (- 1 :: real, 0 :: real))]"
  have d: "distinct (map fst ?W)"
    by (simp add: str_def)
  have m: "(str ''joyful'', None) \<in> set ?W"
    by simp
  have f: "find (\<lambda>p. snd p = None) ?W = Some (str ''joyful'', None)"
    by simp
  from clusterByThreshold_null_embedding [OF d m, of dot "Num 0.9"] obtain w0 where
    a: "find (\<lambda>p. snd p = None) ?W = Some (w0, None)"
    and b: "clusterByThreshold dot ?W (Num 0.9) = Inl (TargetNotFound w0)"
    by blast
  from a f have "w0 = str ''joyful''"
    by (simp only: option.inject prod.inject)
  with b have r: "clusterByThreshold dot ?W (Num 0.9) = Inl (TargetNotFound (str ''joyful''))"
    by (simp only:)
  show ?thesis
    by (intro conjI) (rule d, rule m, rule r)
qed

section \<open>Properties of createSimilarityMatrix\<close>










section \<open>Properties of RAGController\<close>

lemma addDocument_returns:
  assumes "chunkOverlap this div 5 < chunkSize this div 5"
  shows "\<exists>r. addDocument this id' title content metadata now = Some r"
proof -
  from assms have "0 < chunkSize this div 5 - chunkOverlap this div 5" by simp
  from createChunks_returns [OF this, of content id' title] obtain chunks where
    "createChunks this content id' title = Some chunks" by blast
  then show ?thesis
    by (simp add: addDocument_def Let_def createChunks_def)
qed

lemma RAGController_addDocument_initialized:
  assumes "isInitialized this"
    and "addDocument (documentService this) id' title content metadata now = Some r"
  shows "\<exists>b this'. RAGController_addDocument sv this id' title content metadata namespace now
                      = Some (Inr b, this')"
  using assms
  by (cases r) (auto simp: RAGController_addDocument_def Let_def split: sum.splits)

lemma RAGController_addDocument_accepted:
  assumes "isInitialized this"
    and "RAGController_addDocument sv this id' title content metadata namespace now = Some r"
  shows "\<exists>b. fst r = Inr b"
proof -
  from assms have "fst r \<noteq> Inl e" for e
    by (auto simp: RAGController_addDocument_def Let_def split: option.splits sum.splits)
  then show ?thesis
    by (cases "fst r") auto
qed

lemma search_initialized:
  assumes "isInitialized this"
  shows "\<exists>res this'. search sv this q k namespace filter' = (Inr res, this')"
  using assms
  by (simp add: search_def Let_def split: option.splits sum.splits)

text \<open>
  C9: while \<open>isInitialized\<close> is false, \<open>addDocument\<close> and \<open>search\<close> of the controller throw the
  not-initialized error and leave the controller as it was: no document is stored and no
  collaborator is called. \<open>initialize\<close> returns true exactly when the embedding service is
  healthy and the vector service initializes, and sets the flag to what it returns. With the
  flag set neither method throws: \<open>search\<close> returns, and \<open>addDocument\<close> returns whenever the
  chunking of the document does.
\<close>

theorem not_initialized_fails_fast:
  "(\<not> isInitialized this \<longrightarrow>
      RAGController_addDocument sv this id' title content metadata namespace now
        = Some (Inl NotInitialized, this)
      \<and> search sv this q k namespace filter' = (Inl NotInitialized, this))
   \<and> (isInitialized this \<longrightarrow>
        (\<forall>r. RAGController_addDocument sv this id' title content metadata namespace now = Some r
             \<longrightarrow> (\<exists>b. fst r = Inr b))
        \<and> (chunkOverlap (documentService this) div 5 < chunkSize (documentService this) div 5
             \<longrightarrow> (\<exists>b this'. RAGController_addDocument sv this id' title content metadata
                               namespace now = Some (Inr b, this')))
        \<and> (\<exists>res this'. search sv this q k namespace filter' = (Inr res, this')))
   \<and> (fst (initialize sv this)
        \<longleftrightarrow> healthCheck sv (calls this) \<and> vector_initialize sv (calls this @ [HealthCheck]))
   \<and> isInitialized (snd (initialize sv this)) = fst (initialize sv this)
   \<and> documentService (snd (initialize sv this)) = documentService this"
proof (intro conjI impI allI)
  assume "\<not> isInitialized this"
  then show "RAGController_addDocument sv this id' title content metadata namespace now
        = Some (Inl NotInitialized, this)"
    and "search sv this q k namespace filter' = (Inl NotInitialized, this)"
    by (simp_all add: RAGController_addDocument_def search_def)
next
  fix r
  assume "isInitialized this"
    and "RAGController_addDocument sv this id' title content metadata namespace now = Some r"
  then show "\<exists>b. fst r = Inr b"
    by (rule RAGController_addDocument_accepted)
next
  assume i: "isInitialized this"
    and "chunkOverlap (documentService this) div 5 < chunkSize (documentService this) div 5"
  from addDocument_returns [OF this(2), of id' title content metadata now] obtain r where
    "addDocument (documentService this) id' title content metadata now = Some r" by blast
  with i show "\<exists>b this'. RAGController_addDocument sv this id' title content metadata
                               namespace now = Some (Inr b, this')"
    by (rule RAGController_addDocument_initialized)
next
  assume "isInitialized this"
  then show "\<exists>res this'. search sv this q k namespace filter' = (Inr res, this')"
    by (rule search_initialized)
next
  show "fst (initialize sv this)
        \<longleftrightarrow> healthCheck sv (calls this) \<and> vector_initialize sv (calls this @ [HealthCheck])"
    by (simp add: initialize_def Let_def)
  show "isInitialized (snd (initialize sv this)) = fst (initialize sv this)"
    by (simp add: initialize_def Let_def)
  show "documentService (snd (initialize sv this)) = documentService this"
    by (simp add: initialize_def Let_def)
qed

text \<open>C9, witness: a controller from the constructor, before and after \<open>initialize\<close>.\<close>

theorem not_initialized_fails_fast_witness:
  "\<not> isInitialized (new_RAGController :: (unit, nat) RAGController)
   \<and> RAGController_addDocument ready_services new_RAGController (str ''d1'') (str ''T'')
        (str ''a b'') [] (str ''default'') (str ''2024-01-01T00:00:00.000Z'')
       = Some (Inl NotInitialized, new_RAGController)
   \<and> search ready_services new_RAGController (str ''a'') 5 (str ''default'') None
       = (Inl NotInitialized, new_RAGController)
   \<and> fst (initialize ready_services new_RAGController)
   \<and> isInitialized (snd (initialize ready_services new_RAGController))
   \<and> chunkOverlap (documentService (snd (initialize ready_services new_RAGController))) div 5
       < chunkSize (documentService (snd (initialize ready_services new_RAGController))) div 5
   \<and> (\<exists>b this'. RAGController_addDocument ready_services
                    (snd (initialize ready_services new_RAGController)) (str ''d1'') (str ''T'')
                    (str ''a b'') [] (str ''default'') (str ''2024-01-01T00:00:00.000Z'')
                  = Some (Inr b, this'))
   \<and> (\<exists>res this'. search ready_services (snd (initialize ready_services new_RAGController))
                      (str ''a'') 5 (str ''default'') None = (Inr res, this'))"
proof -
  let ?new = "new_RAGController :: (unit, nat) RAGController"
  let ?ready = "snd (initialize ready_services ?new)"
  have n: "\<not> isInitialized ?new"
    by (simp add: new_RAGController_def)
  have t: "fst (initialize ready_services ?new)"
    and i: "isInitialized ?ready"
    and c: "chunkOverlap (documentService ?ready) div 5 < chunkSize (documentService ?ready) div 5"
    by (simp_all add: initialize_def Let_def ready_services_def new_RAGController_def
        new_DocumentService_def)
  note a = not_initialized_fails_fast [of ?new ready_services "str ''d1''" "str ''T''"
      "str ''a b''" "[]" "str ''default''" "str ''2024-01-01T00:00:00.000Z''" "str ''a''" 5 None]
  note b = not_initialized_fails_fast [of ?ready ready_services "str ''d1''" "str ''T''"
      "str ''a b''" "[]" "str ''default''" "str ''2024-01-01T00:00:00.000Z''" "str ''a''" 5 None]
  from a n have a1: "RAGController_addDocument ready_services ?new (str ''d1'') (str ''T'')
        (str ''a b'') [] (str ''default'') (str ''2024-01-01T00:00:00.000Z'')
       = Some (Inl NotInitialized, ?new)"
    and a2: "search ready_services ?new (str ''a'') 5 (str ''default'') None
       = (Inl NotInitialized, ?new)"
    by simp_all
  from b i c have b1: "\<exists>b this'. RAGController_addDocument ready_services ?ready (str ''d1'')
        (str ''T'') (str ''a b'') [] (str ''default'') (str ''2024-01-01T00:00:00.000Z'')
                  = Some (Inr b, this')"
    and b2: "\<exists>res this'. search ready_services ?ready (str ''a'') 5 (str ''default'') None
                = (Inr res, this')"
    by simp_all
  from n a1 a2 t i c b1 b2 show ?thesis
    by (intro conjI)
qed

end
